theory Spec2Isabelle
  imports Complex_Main "HOL-Library.Sublist"
begin

section \<open>JavaScript values\<close>

text \<open>
  A JavaScript string is its sequence of UTF-16 code units. The literals of the scripts
  are ASCII and are written as HOL strings; \<open>str\<close> turns one into code units.
\<close>

type_synonym jstring = "nat list"

definition str :: "string \<Rightarrow> jstring" where
  "str s = map of_char s"

text \<open>
  The values the scripts handle all come out of \<^verbatim>\<open>JSON.parse\<close>, out of
  \<^verbatim>\<open>response.json()\<close>, out of the geolocation plugin or out of an object
  literal, so they are JSON values. A number is kept as the exact decimal value of its
  literal; the members of an object are kept in source order. \<^verbatim>\<open>undefined\<close> is
  \<open>None\<close> of \<open>json option\<close>.
\<close>

datatype json =
    JNull
  | JBool bool
  | JNumber rat
  | JString jstring
  | JArray "json list"
  | JObject "(jstring \<times> json) list"

text \<open>
  A number literal denotes the double nearest to it, which is zero exactly when the
  literal is at most half the smallest subnormal, 2 to the power -1075, in magnitude.
\<close>

definition is_zero :: "rat \<Rightarrow> bool" where
  "is_zero q = (\<bar>q\<bar> \<le> 1 / 2 ^ 1075)"

fun truthy :: "json \<Rightarrow> bool" where
  "truthy JNull = False"
| "truthy (JBool b) = b"
| "truthy (JNumber q) = (\<not> is_zero q)"
| "truthy (JString s) = (s \<noteq> [])"
| "truthy (JArray xs) = True"
| "truthy (JObject kvs) = True"

fun truthy_opt :: "json option \<Rightarrow> bool" where
  "truthy_opt None = False"
| "truthy_opt (Some v) = truthy v"

text \<open>
  Errors are values. An error made by the engine or the platform (a \<^verbatim>\<open>TypeError\<close>
  on a property of \<^verbatim>\<open>null\<close>, a \<^verbatim>\<open>SyntaxError\<close> of the JSON parser, a
  rejected \<^verbatim>\<open>fetch\<close>) has a message the scripts do not choose; it stays symbolic.
  What a promise of the platform or of the plugin rejects with is taken to be such an
  error object: the scripts read its \<^verbatim>\<open>message\<close>.
  Text built by a template literal is the list of its fragments: the literal pieces,
  and the interpolated values under the conversion the script applies to them
  (\<^verbatim>\<open>${v}\<close>, \<^verbatim>\<open>new Date(v).toLocaleString()\<close>,
  \<^verbatim>\<open>JSON.stringify(v)\<close>), which the platform computes.
\<close>

datatype error_kind = TypeError | SyntaxError | ReferenceError

datatype frag =
    Lit string
  | ToString "json option"
  | LocaleString "json option"
  | Stringify json
  | EngineMessage error_kind

type_synonym jtext = "frag list"

datatype js_error = Error jtext | Thrown error_kind

fun error_message :: "js_error \<Rightarrow> jtext" where
  "error_message (Error m) = m"
| "error_message (Thrown k) = [EngineMessage k]"

text \<open>
  Property access \<^verbatim>\<open>v.name\<close>, for the names the scripts read: none of them is
  defined by a built-in prototype except \<^verbatim>\<open>length\<close> of strings and arrays.
  The last of several members with one name wins, as in \<^verbatim>\<open>JSON.parse\<close>.
  Reading a property of \<^verbatim>\<open>null\<close> throws.
\<close>

fun get :: "json \<Rightarrow> string \<Rightarrow> js_error + json option" where
  "get JNull name = Inl (Thrown TypeError)"
| "get (JObject kvs) name = Inr (map_of (rev kvs) (str name))"
| "get (JArray xs) name =
     Inr (if name = ''length'' then Some (JNumber (of_nat (length xs))) else None)"
| "get (JString s) name =
     Inr (if name = ''length'' then Some (JNumber (of_nat (length s))) else None)"
| "get (JBool b) name = Inr None"
| "get (JNumber q) name = Inr None"

text \<open>\<^verbatim>\<open>${v || 'fallback'}\<close> inside a template literal.\<close>

fun or_else :: "json option \<Rightarrow> string \<Rightarrow> frag" where
  "or_else (Some v) fallback = (if truthy v then ToString (Some v) else Lit fallback)"
| "or_else None fallback = Lit fallback"

text \<open>
  A conversion of a value to a primitive (\<^verbatim>\<open>${v}\<close>, the argument of
  \<^verbatim>\<open>new Date(v)\<close>) asks an object for its \<^verbatim>\<open>toString\<close> and its
  \<^verbatim>\<open>valueOf\<close>. No property of a JSON value is a function, and the
  \<^verbatim>\<open>valueOf\<close> an object inherits returns the object: an object with a property
  \<^verbatim>\<open>toString\<close> of its own has no method that gives a primitive, and the
  conversion throws a \<^verbatim>\<open>TypeError\<close>. An array is converted by
  \<^verbatim>\<open>join\<close>, which converts its elements.
\<close>

fun conversion_throws :: "json \<Rightarrow> bool" where
  "conversion_throws (JObject kvs) = (str ''toString'' \<in> fst ` set kvs)"
| "conversion_throws (JArray xs) = (\<exists>x \<in> set xs. conversion_throws x)"
| "conversion_throws v = False"

text \<open>A value the script converts only when it is truthy.\<close>

fun truthy_throws :: "json option \<Rightarrow> bool" where
  "truthy_throws None = False"
| "truthy_throws (Some v) = (truthy v \<and> conversion_throws v)"

text \<open>\<^verbatim>\<open>text.includes(sub)\<close> on the ASCII text of a placeholder.\<close>

fun text_includes :: "string \<Rightarrow> string \<Rightarrow> bool" where
  "text_includes [] sub = (sub = [])"
| "text_includes (c # cs) sub = (prefix sub (c # cs) \<or> text_includes cs sub)"

section \<open>\<^verbatim>\<open>JSON.parse\<close>\<close>

text \<open>
  The platform's JSON parser, on the code units of the text: the grammar of ECMA-404,
  white space being space, tab, line feed and carriage return. A text that is not in
  the grammar is a \<^verbatim>\<open>SyntaxError\<close>.
\<close>

definition is_ws :: "nat \<Rightarrow> bool" where
  "is_ws c = (c = 32 \<or> c = 9 \<or> c = 10 \<or> c = 13)"

definition skip_ws :: "nat list \<Rightarrow> nat list" where
  "skip_ws cs = dropWhile is_ws cs"

definition is_digit :: "nat \<Rightarrow> bool" where
  "is_digit c = (48 \<le> c \<and> c \<le> 57)"

definition hex_digit :: "nat \<Rightarrow> nat option" where
  "hex_digit c =
     (if 48 \<le> c \<and> c \<le> 57 then Some (c - 48)
      else if 65 \<le> c \<and> c \<le> 70 then Some (c - 55)
      else if 97 \<le> c \<and> c \<le> 102 then Some (c - 87)
      else None)"

text \<open>The character after a backslash: \<^verbatim>\<open>" \ / b f n r t\<close>.\<close>

definition unescape :: "nat \<Rightarrow> nat option" where
  "unescape e =
     (if e = 34 \<or> e = 92 \<or> e = 47 then Some e
      else if e = 98 then Some 8
      else if e = 102 then Some 12
      else if e = 110 then Some 10
      else if e = 114 then Some 13
      else if e = 116 then Some 9
      else None)"

definition cons_unit ::
  "nat \<Rightarrow> (jstring \<times> nat list) option \<Rightarrow> (jstring \<times> nat list) option" where
  "cons_unit c r = map_option (\<lambda>(s, rest). (c # s, rest)) r"

text \<open>A string, from after its opening quote to its closing quote.\<close>

fun string_chars :: "nat list \<Rightarrow> (jstring \<times> nat list) option" where
  "string_chars [] = None"
| "string_chars (c # cs) =
     (if c = 34 then Some ([], cs)
      else if c = 92 then
        (case cs of
           [] \<Rightarrow> None
         | e # cs1 \<Rightarrow>
             if e = 117 then
               (case cs1 of
                  h1 # h2 # h3 # h4 # cs2 \<Rightarrow>
                    (case (hex_digit h1, hex_digit h2, hex_digit h3, hex_digit h4) of
                       (Some a, Some b, Some c, Some d) \<Rightarrow>
                         cons_unit (((a * 16 + b) * 16 + c) * 16 + d) (string_chars cs2)
                     | _ \<Rightarrow> None)
                | _ \<Rightarrow> None)
             else
               (case unescape e of
                  Some u \<Rightarrow> cons_unit u (string_chars cs1)
                | None \<Rightarrow> None))
      else if c < 32 then None
      else cons_unit c (string_chars cs))"

definition digits_value :: "nat list \<Rightarrow> nat" where
  "digits_value ds = foldl (\<lambda>a d. 10 * a + (d - 48)) 0 ds"

definition scale :: "nat \<Rightarrow> int \<Rightarrow> rat" where
  "scale m e = (if 0 \<le> e then of_nat m * 10 ^ nat e else of_nat m / 10 ^ nat (- e))"

definition parse_exponent :: "nat list \<Rightarrow> (int \<times> nat list) option" where
  "parse_exponent cs =
     (case cs of
        [] \<Rightarrow> Some (0, cs)
      | c # cs1 \<Rightarrow>
          if c = 101 \<or> c = 69 then
            (let (neg, cs2) =
                   (case cs1 of
                      [] \<Rightarrow> (False, cs1)
                    | s # r \<Rightarrow>
                        if s = 45 then (True, r) else if s = 43 then (False, r) else (False, cs1));
                 ds = takeWhile is_digit cs2
             in if ds = [] then None
                else Some ((if neg then - int (digits_value ds) else int (digits_value ds)),
                           dropWhile is_digit cs2))
          else Some (0, cs))"

definition parse_fraction :: "nat list \<Rightarrow> (nat list \<times> nat list) option" where
  "parse_fraction cs =
     (case cs of
        [] \<Rightarrow> Some ([], cs)
      | c # cs1 \<Rightarrow>
          if c = 46 then
            (let ds = takeWhile is_digit cs1
             in if ds = [] then None else Some (ds, dropWhile is_digit cs1))
          else Some ([], cs))"

text \<open>
  A number: an optional minus, an integer part with no leading zero, an optional
  fraction, an optional exponent.
\<close>

definition parse_number :: "nat list \<Rightarrow> (json \<times> nat list) option" where
  "parse_number cs =
     (let (neg, cs1) =
            (case cs of [] \<Rightarrow> (False, cs) | c # r \<Rightarrow> if c = 45 then (True, r) else (False, cs));
          ip = takeWhile is_digit cs1
      in if ip = [] \<or> (length ip > 1 \<and> hd ip = 48) then None
         else
           (case parse_fraction (dropWhile is_digit cs1) of
              None \<Rightarrow> None
            | Some (fp, cs2) \<Rightarrow>
                (case parse_exponent cs2 of
                   None \<Rightarrow> None
                 | Some (e, cs3) \<Rightarrow>
                     (let q = scale (digits_value (ip @ fp)) (e - int (length fp))
                      in Some (JNumber (if neg then - q else q), cs3)))))"

text \<open>
  A value, the elements of a non-empty array up to its bracket and the members of a
  non-empty object up to its brace; each returns what is left of the text. The
  comparisons of lengths make the recursion well founded on sight; a parse always
  consumes input, so they never fail (\<open>parse_elements_descent\<close> and
  \<open>parse_members_descent\<close> below).
\<close>

function parse_value :: "nat list \<Rightarrow> (json \<times> nat list) option"
  and parse_elements :: "nat list \<Rightarrow> (json list \<times> nat list) option"
  and parse_members :: "nat list \<Rightarrow> ((jstring \<times> json) list \<times> nat list) option"
where
  "parse_value cs =
     (case cs of
        [] \<Rightarrow> None
      | c # cs1 \<Rightarrow>
          if c = 123 then
            (case skip_ws cs1 of
               [] \<Rightarrow> None
             | d # cs2 \<Rightarrow>
                 if d = 125 then Some (JObject [], cs2)
                 else map_option (\<lambda>(kvs, rest). (JObject kvs, rest)) (parse_members (d # cs2)))
          else if c = 91 then
            (case skip_ws cs1 of
               [] \<Rightarrow> None
             | d # cs2 \<Rightarrow>
                 if d = 93 then Some (JArray [], cs2)
                 else map_option (\<lambda>(vs, rest). (JArray vs, rest)) (parse_elements (d # cs2)))
          else if c = 34 then map_option (\<lambda>(s, rest). (JString s, rest)) (string_chars cs1)
          else if take 4 cs = str ''true'' then Some (JBool True, drop 4 cs)
          else if take 5 cs = str ''false'' then Some (JBool False, drop 5 cs)
          else if take 4 cs = str ''null'' then Some (JNull, drop 4 cs)
          else parse_number cs)"
| "parse_elements cs =
     (case parse_value cs of
        None \<Rightarrow> None
      | Some (v, cs1) \<Rightarrow>
          if length cs1 < length cs then
            (case skip_ws cs1 of
               [] \<Rightarrow> None
             | d # cs2 \<Rightarrow>
                 if d = 93 then Some ([v], cs2)
                 else if d = 44 then
                   map_option (\<lambda>(vs, rest). (v # vs, rest)) (parse_elements (skip_ws cs2))
                 else None)
          else None)"
| "parse_members cs =
     (case cs of
        [] \<Rightarrow> None
      | c # cs1 \<Rightarrow>
          if c = 34 then
            (case string_chars cs1 of
               None \<Rightarrow> None
             | Some (k, cs2) \<Rightarrow>
                 if length cs2 < length cs then
                   (case skip_ws cs2 of
                      [] \<Rightarrow> None
                    | d # cs3 \<Rightarrow>
                        if d = 58 \<and> length (skip_ws cs3) < length cs then
                          (case parse_value (skip_ws cs3) of
                             None \<Rightarrow> None
                           | Some (v, cs4) \<Rightarrow>
                               if length cs4 < length cs then
                                 (case skip_ws cs4 of
                                    [] \<Rightarrow> None
                                  | f # cs5 \<Rightarrow>
                                      if f = 125 then Some ([(k, v)], cs5)
                                      else if f = 44 then
                                        map_option (\<lambda>(kvs, rest). ((k, v) # kvs, rest))
                                          (parse_members (skip_ws cs5))
                                      else None)
                               else None)
                        else None)
                 else None)
          else None)"
  by pat_completeness auto
termination
proof -
  have le: "length (skip_ws cs) \<le> length cs" for cs
    by (simp add: skip_ws_def length_dropWhile_le)
  have less: "length r < length cs" if "skip_ws cs = d # r" for cs d r
    using le [of cs] that by simp
  have less': "length (skip_ws r) < length cs" if "skip_ws cs = d # r" for cs d r
    using le [of cs] le [of r] that by simp
  show ?thesis
    by (relation "measure (\<lambda>x. case x of Inl cs \<Rightarrow> 2 * length cs
                                  | Inr (Inl cs) \<Rightarrow> 2 * length cs + 1
                                  | Inr (Inr cs) \<Rightarrow> 2 * length cs + 1)")
       (auto dest: less less')
qed

declare parse_value.simps [simp del] parse_elements.simps [simp del] parse_members.simps [simp del]

definition JSON_parse :: "jstring \<Rightarrow> js_error + json" where
  "JSON_parse raw =
     (case parse_value (skip_ws raw) of
        None \<Rightarrow> Inl (Thrown SyntaxError)
      | Some (v, rest) \<Rightarrow> if skip_ws rest = [] then Inr v else Inl (Thrown SyntaxError))"

section \<open>The notification area\<close>

text \<open>
  \<^verbatim>\<open>notificationsDiv\<close> is the list of its child nodes, first child first. A child
  is a text node, a \<^verbatim>\<open>p\<close> element with its text content, or a \<^verbatim>\<open>div\<close>
  made by \<^verbatim>\<open>addNotification\<close> with its classes, its inline style and its
  \<^verbatim>\<open>innerHTML\<close>. The page that gives the area its first content is not part of
  the scripts, so the first content is any list of such nodes.

  The markup of a notification is the template of the script with values in its holes,
  and the platform parses it when the script assigns it to \<^verbatim>\<open>innerHTML\<close>: a
  value that holds markup gives the notification elements of its own. All the scripts ask
  of the parsed markup is its first \<^verbatim>\<open>p\<close> element, so the parser of the
  platform is a parameter \<open>html\<close> of the functions that search the area:
  \<open>html h\<close> is the text content of the first \<^verbatim>\<open>p\<close> element the markup
  \<open>h\<close> parses to, and \<open>None\<close> when it parses to none.
\<close>

type_synonym html_parser = "jtext \<Rightarrow> string option"

datatype node =
    Text string
  | P string
  | Div "string list" "(string \<times> string) list" jtext

fun is_element :: "node \<Rightarrow> bool" where
  "is_element (Text t) = False"
| "is_element (P t) = True"
| "is_element (Div c s h) = True"

definition children :: "node list \<Rightarrow> node list" where
  "children ns = filter is_element ns"

text \<open>
  \<^verbatim>\<open>notificationsDiv.querySelector('p')\<close>: the first \<^verbatim>\<open>p\<close> element
  below the area in document order, a child or an element inside a child.
\<close>

fun querySelector_p :: "html_parser \<Rightarrow> node list \<Rightarrow> string option" where
  "querySelector_p html [] = None"
| "querySelector_p html (Text t # ns) = querySelector_p html ns"
| "querySelector_p html (P t # ns) = Some t"
| "querySelector_p html (Div c s h # ns) =
     (case html h of
        Some t \<Rightarrow> Some t
      | None \<Rightarrow> querySelector_p html ns)"

text \<open>
  \<^verbatim>\<open>while (notificationsDiv.children.length > maxNotifications)
    notificationsDiv.removeChild(notificationsDiv.lastChild);\<close>
  \<^verbatim>\<open>children\<close> counts elements, \<^verbatim>\<open>lastChild\<close> is the last node of any kind.
\<close>

function remove_excess :: "nat \<Rightarrow> node list \<Rightarrow> node list" where
  "remove_excess maxNotifications ns =
     (if length (children ns) > maxNotifications
      then remove_excess maxNotifications (butlast ns)
      else ns)"
  by pat_completeness auto
termination
proof (relation "measure (\<lambda>(m, ns). length ns)")
  fix maxNotifications :: nat and ns :: "node list"
  assume "maxNotifications < length (children ns)"
  then have "ns \<noteq> []"
    by (auto simp: children_def)
  then show "((maxNotifications, butlast ns), (maxNotifications, ns))
             \<in> measure (\<lambda>(m, ns). length ns)"
    by simp
qed simp

declare remove_excess.simps [simp del]

text \<open>
  \<^verbatim>\<open>if (placeholder && placeholder.textContent.includes('Waiting'))
    notificationsDiv.innerHTML = '';\<close>
\<close>

definition clear_placeholder :: "html_parser \<Rightarrow> node list \<Rightarrow> node list" where
  "clear_placeholder html ns =
     (case querySelector_p html ns of
        Some t \<Rightarrow> if text_includes t ''Waiting'' then [] else ns
      | None \<Rightarrow> ns)"

definition error_style :: "(string \<times> string) list" where
  "error_style = [(''backgroundColor'', ''#f8d7da''), (''borderColor'', ''#f5c6cb'')]"

text \<open>
  \<^verbatim>\<open>crashData.detection_timestamp ?
    new Date(crashData.detection_timestamp).toLocaleString() : 'N/A'\<close>
\<close>

fun timestamp_text :: "json option \<Rightarrow> frag" where
  "timestamp_text (Some v) = (if truthy v then LocaleString (Some v) else Lit ''N/A'')"
| "timestamp_text None = Lit ''N/A''"

text \<open>
  The element \<^verbatim>\<open>addNotification\<close> of the dashboard script builds. Its template
  literal spans five lines of the script, so the text has their line breaks and indentation.
\<close>

definition notification_item :: "json option \<Rightarrow> json option \<Rightarrow> bool \<Rightarrow> node" where
  "notification_item video_filename detection_timestamp isError =
     Div [''notification-item'']
         (if isError then error_style else [])
         [Lit ''\<newline>        <strong>Crash Alert!</strong><br>\<newline>        Video: '',
          or_else video_filename ''Unknown Video'',
          Lit ''<br>\<newline>        Time: '',
          timestamp_text detection_timestamp,
          Lit ''\<newline>    '']"

text \<open>
  The timestamp is made first and the markup next, both before the area is touched: when
  a conversion throws, the function throws and the area is as it was.
\<close>

definition addNotification :: "html_parser \<Rightarrow> json \<Rightarrow> bool \<Rightarrow> node list \<Rightarrow> js_error + node list" where
  "addNotification html crashData isError notificationsDiv =
     (case get crashData ''detection_timestamp'' of
        Inl e \<Rightarrow> Inl e
      | Inr detection_timestamp \<Rightarrow>
     if truthy_throws detection_timestamp then Inl (Thrown TypeError) else
     (case get crashData ''video_filename'' of
        Inl e \<Rightarrow> Inl e
      | Inr video_filename \<Rightarrow>
     if truthy_throws video_filename then Inl (Thrown TypeError) else
          Inr (remove_excess 20
                 (notification_item video_filename detection_timestamp isError
                  # clear_placeholder html notificationsDiv))))"

text \<open>
  The element \<^verbatim>\<open>addUserNotification\<close> of the web-app script builds. For an
  error the script assigns the markup of an alert first and the markup of the error over
  it.
\<close>

definition user_notification_item :: "json option \<Rightarrow> json option \<Rightarrow> bool \<Rightarrow> node" where
  "user_notification_item video_filename detection_timestamp isError =
     (if isError
      then Div [''notification-item-user-error'']
               error_style
               [Lit ''<strong>Connection Issue:</strong> '',
                or_else video_filename ''Unknown'']
      else Div [''notification-item-user'']
               []
               [Lit ''<strong>Alert:</strong> A crash detected.<br>Time: '',
                timestamp_text detection_timestamp,
                Lit ''<br>Ref: '',
                or_else video_filename ''N/A''])"

definition addUserNotification :: "html_parser \<Rightarrow> json \<Rightarrow> bool \<Rightarrow> node list \<Rightarrow> js_error + node list" where
  "addUserNotification html crashData isError notificationsDiv =
     (case get crashData ''detection_timestamp'' of
        Inl e \<Rightarrow> Inl e
      | Inr detection_timestamp \<Rightarrow>
     if truthy_throws detection_timestamp then Inl (Thrown TypeError) else
     (case get crashData ''video_filename'' of
        Inl e \<Rightarrow> Inl e
      | Inr video_filename \<Rightarrow>
     if truthy_throws video_filename then Inl (Thrown TypeError) else
          Inr (remove_excess 10
                 (user_notification_item video_filename detection_timestamp isError
                  # clear_placeholder html notificationsDiv))))"

section \<open>The push channel\<close>

text \<open>
  The repository has two pages, each with its script: the operator's dashboard
  (\<^verbatim>\<open>dashboard_script.js\<close>) and the end user's web app
  (\<^verbatim>\<open>webapp_script.js\<close>). Both declare \<^verbatim>\<open>connectWebSocket\<close> and
  its four handlers, which differ in the texts they show and in the function that adds a
  notification. The handlers that search the notification area take the parser
  \<open>html\<close> of the platform as their first argument.
\<close>

datatype script = Dashboard | Webapp

definition NGROK_HTTPS_URL :: string where
  "NGROK_HTTPS_URL = ''https://c813-50-234-34-194.ngrok-free.app''"

text \<open>
  \<^verbatim>\<open>`wss://${NGROK_HTTPS_URL.replace(/^https?:\/\//, '')}/ws`\<close>: the pattern
  matches the eight characters \<^verbatim>\<open>https://\<close> the constant starts with.
\<close>

fun WEBSOCKET_URL :: "script \<Rightarrow> string" where
  "WEBSOCKET_URL Dashboard = ''ws://127.0.0.1:8000/ws''"
| "WEBSOCKET_URL Webapp = ''wss://'' @ drop 8 NGROK_HTTPS_URL @ ''/ws''"

fun API_BASE_URL :: "script \<Rightarrow> string" where
  "API_BASE_URL Dashboard = ''http://127.0.0.1:8000''"
| "API_BASE_URL Webapp = NGROK_HTTPS_URL"

text \<open>
  What the platform keeps for a \<^verbatim>\<open>WebSocket\<close> object: whether it is still
  connecting, open, has had its \<^verbatim>\<open>error\<close> event (the \<^verbatim>\<open>close\<close>
  event is still to come), or has had its \<^verbatim>\<open>close\<close> event.
\<close>

datatype socket_state = CONNECTING | OPEN | FAILED | CLOSED

datatype level = Log | Warn | Err

text \<open>
  The state the connection code of either script reads and writes: the notification
  area, the console (the level of each call and the literal text its message starts
  with), the
  sockets made so far, the variable \<^verbatim>\<open>ws\<close> (the index of the socket it
  holds), the pending \<^verbatim>\<open>setTimeout(connectWebSocket, 5000)\<close> calls (the time
  each is due, in milliseconds), the time now, and whether the page has loaded. The
  record also keeps the addresses passed to \<^verbatim>\<open>fetch\<close>, which the rest of
  each script calls.
\<close>

record page =
  notificationsDiv :: "node list"
  console :: "(level \<times> string) list"
  sockets :: "socket_state list"
  ws :: "nat option"
  timers :: "nat list"
  clock :: nat
  loaded :: bool
  requests :: "jtext list"

definition console_write :: "level \<Rightarrow> string \<Rightarrow> 'a page_scheme \<Rightarrow> 'a page_scheme" where
  "console_write l m st = st\<lparr>console := console st @ [(l, m)]\<rparr>"

text \<open>The function each script calls to show a notification.\<close>

fun add_notification :: "html_parser \<Rightarrow> script \<Rightarrow> json \<Rightarrow> bool \<Rightarrow> node list \<Rightarrow> js_error + node list" where
  "add_notification html Dashboard = addNotification html"
| "add_notification html Webapp = addUserNotification html"

fun connect_message :: "script \<Rightarrow> string" where
  "connect_message Dashboard = ''Attempting to connect WebSocket...''"
| "connect_message Webapp = ''Attempting WebSocket connection to:''"

definition connectWebSocket :: "script \<Rightarrow> 'a page_scheme \<Rightarrow> 'a page_scheme" where
  "connectWebSocket v st =
     (let st1 = console_write Log (connect_message v) st
      in st1\<lparr>sockets := sockets st1 @ [CONNECTING], ws := Some (length (sockets st1))\<rparr>)"

text \<open>
  \<^verbatim>\<open>if (notificationsDiv.querySelector('p')?.textContent.includes('Waiting'))
    notificationsDiv.innerHTML = '<p>Connected. Waiting for new crash alerts...</p>';\<close>
\<close>

definition ws_onopen :: "html_parser \<Rightarrow> script \<Rightarrow> 'a page_scheme \<Rightarrow> 'a page_scheme" where
  "ws_onopen html v st =
     (let st1 = console_write Log ''WebSocket connection established.'' st
      in case querySelector_p html (notificationsDiv st1) of
           Some t \<Rightarrow>
             if text_includes t ''Waiting''
             then st1\<lparr>notificationsDiv := [P ''Connected. Waiting for new crash alerts...'']\<rparr>
             else st1
         | None \<Rightarrow> st1)"

text \<open>
  The body of the \<^verbatim>\<open>try\<close> of \<^verbatim>\<open>ws.onmessage\<close>: the notification area it
  leaves, or what it throws.
\<close>

definition onmessage_try :: "html_parser \<Rightarrow> script \<Rightarrow> jstring \<Rightarrow> node list \<Rightarrow> js_error + node list" where
  "onmessage_try html v data ns =
     (case JSON_parse data of
        Inl e \<Rightarrow> Inl e
      | Inr message \<Rightarrow>
          (case get message ''type'' of
             Inl e \<Rightarrow> Inl e
           | Inr type \<Rightarrow>
               if type = Some (JString (str ''new_crash'')) then
                 (case get message ''data'' of
                    Inl e \<Rightarrow> Inl e
                  | Inr d \<Rightarrow>
                      (case d of
                         Some crashData \<Rightarrow>
                           if truthy crashData then add_notification html v crashData False ns
                           else Inr ns
                       | None \<Rightarrow> Inr ns))
               else Inr ns))"

fun message_received :: "script \<Rightarrow> string" where
  "message_received Dashboard = ''Message received from server:''"
| "message_received Webapp = ''Message received:''"

fun parse_failed :: "script \<Rightarrow> string" where
  "parse_failed Dashboard = ''Failed to parse message or invalid message format:''"
| "parse_failed Webapp = ''Failed to parse message:''"

definition ws_onmessage :: "html_parser \<Rightarrow> script \<Rightarrow> jstring \<Rightarrow> 'a page_scheme \<Rightarrow> 'a page_scheme" where
  "ws_onmessage html v data st =
     (let st1 = console_write Log (message_received v) st
      in case onmessage_try html v data (notificationsDiv st1) of
           Inr ns \<Rightarrow> st1\<lparr>notificationsDiv := ns\<rparr>
         | Inl error \<Rightarrow> console_write Err (parse_failed v) st1)"

text \<open>
  The object literal \<^verbatim>\<open>ws.onerror\<close> passes on; \<open>now\<close> is what
  \<^verbatim>\<open>new Date().toISOString()\<close> returns at the event.
\<close>

fun error_filename :: "script \<Rightarrow> string" where
  "error_filename Dashboard = ''WebSocket Error''"
| "error_filename Webapp = ''WebSocket Conn Error to '' @ WEBSOCKET_URL Webapp"

definition error_record :: "script \<Rightarrow> jstring \<Rightarrow> json" where
  "error_record v now =
     JObject [(str ''video_filename'', JString (str (error_filename v))),
              (str ''detection_timestamp'', JString now)]"

fun error_occurred :: "script \<Rightarrow> string" where
  "error_occurred Dashboard = ''WebSocket Error:''"
| "error_occurred Webapp = ''WebSocket Error occurred:''"

text \<open>
  The handler has no \<^verbatim>\<open>try\<close>: were \<^verbatim>\<open>addNotification\<close> to throw, the
  platform would report the exception on the console and go on.
\<close>

definition ws_onerror :: "html_parser \<Rightarrow> script \<Rightarrow> jstring \<Rightarrow> 'a page_scheme \<Rightarrow> 'a page_scheme" where
  "ws_onerror html v now st =
     (let st1 = console_write Err (error_occurred v) st
      in case add_notification html v (error_record v now) True (notificationsDiv st1) of
           Inr ns \<Rightarrow> st1\<lparr>notificationsDiv := ns\<rparr>
         | Inl e \<Rightarrow> console_write Err ''Uncaught'' st1)"

fun closed_message :: "script \<Rightarrow> string" where
  "closed_message Dashboard = ''WebSocket connection closed:''"
| "closed_message Webapp = ''WebSocket disconnected.''"

fun disconnected_text :: "script \<Rightarrow> string" where
  "disconnected_text Dashboard =
     ''WebSocket disconnected. Attempting to reconnect in 5 seconds...''"
| "disconnected_text Webapp = ''WebSocket disconnected. Attempting to reconnect...''"

definition ws_onclose :: "script \<Rightarrow> 'a page_scheme \<Rightarrow> 'a page_scheme" where
  "ws_onclose v st =
     (let st1 = console_write Log (closed_message v) st
      in st1\<lparr>notificationsDiv := [P (disconnected_text v)],
              timers := timers st1 @ [clock st1 + 5000]\<rparr>)"

subsection \<open>Events\<close>

text \<open>
  The handlers run when the platform delivers an event, one at a time. The platform
  delivers \<^verbatim>\<open>DOMContentLoaded\<close> once; to a socket, \<^verbatim>\<open>open\<close> while it is
  connecting, \<^verbatim>\<open>message\<close> while it is open, \<^verbatim>\<open>error\<close> at most once and
  before its \<^verbatim>\<open>close\<close>, \<^verbatim>\<open>close\<close> once and nothing after it; and it runs
  the callback of a \<^verbatim>\<open>setTimeout\<close> once, no earlier than its delay.
  \<open>deliver\<close> is \<open>None\<close> for an event the platform does not deliver in the state.
  A socket is named by its index in \<open>sockets\<close>, a timer by its index in \<open>timers\<close>;
  \<open>Errored\<close> carries the time of the event as \<^verbatim>\<open>toISOString\<close> prints it,
  \<open>Elapse\<close> the milliseconds that pass.

  \<^verbatim>\<open>DOMContentLoaded\<close> also starts what the connection does not touch: the
  dashboard registers \<^verbatim>\<open>fetchCrashHistory\<close> on its button, the web app calls
  \<^verbatim>\<open>requestLocationAndFetchWeather\<close>; both are modelled below.
\<close>

datatype event =
    DOMContentLoaded
  | Opened nat
  | Message nat jstring
  | Errored nat jstring
  | Closed nat
  | Timeout nat
  | Elapse nat

definition socket_is :: "'a page_scheme \<Rightarrow> nat \<Rightarrow> socket_state \<Rightarrow> bool" where
  "socket_is st i s = (i < length (sockets st) \<and> sockets st ! i = s)"

definition set_socket :: "nat \<Rightarrow> socket_state \<Rightarrow> 'a page_scheme \<Rightarrow> 'a page_scheme" where
  "set_socket i s st = st\<lparr>sockets := (sockets st)[i := s]\<rparr>"

fun deliver :: "html_parser \<Rightarrow> script \<Rightarrow> event \<Rightarrow> 'a page_scheme \<Rightarrow> 'a page_scheme option" where
  "deliver html v DOMContentLoaded st =
     (if loaded st then None else Some (connectWebSocket v (st\<lparr>loaded := True\<rparr>)))"
| "deliver html v (Opened i) st =
     (if socket_is st i CONNECTING then Some (ws_onopen html v (set_socket i OPEN st)) else None)"
| "deliver html v (Message i data) st =
     (if socket_is st i OPEN then Some (ws_onmessage html v data st) else None)"
| "deliver html v (Errored i now) st =
     (if socket_is st i CONNECTING \<or> socket_is st i OPEN
      then Some (ws_onerror html v now (set_socket i FAILED st))
      else None)"
| "deliver html v (Closed i) st =
     (if socket_is st i CONNECTING \<or> socket_is st i OPEN \<or> socket_is st i FAILED
      then Some (ws_onclose v (set_socket i CLOSED st))
      else None)"
| "deliver html v (Timeout k) st =
     (if k < length (timers st) \<and> timers st ! k \<le> clock st
      then Some (connectWebSocket v (st\<lparr>timers := take k (timers st) @ drop (Suc k) (timers st)\<rparr>))
      else None)"
| "deliver html v (Elapse d) st = Some (st\<lparr>clock := clock st + d\<rparr>)"

fun run :: "html_parser \<Rightarrow> script \<Rightarrow> event list \<Rightarrow> 'a page_scheme \<Rightarrow> 'a page_scheme option" where
  "run html v [] st = Some st"
| "run html v (e # es) st = (case deliver html v e st of None \<Rightarrow> None | Some st' \<Rightarrow> run html v es st')"

text \<open>The page before it has loaded, with the notification area its markup gives it.\<close>

definition fresh :: "node list \<Rightarrow> page" where
  "fresh ns = \<lparr>notificationsDiv = ns, console = [], sockets = [], ws = None, timers = [],
               clock = 0, loaded = False, requests = []\<rparr>"

text \<open>The sockets whose \<^verbatim>\<open>close\<close> event has not come: the connections outstanding.\<close>

definition live :: "'a page_scheme \<Rightarrow> nat" where
  "live st = length (filter (\<lambda>s. s \<noteq> CLOSED) (sockets st))"

text \<open>
  One loss and retry: socket \<open>k\<close> opens and closes, five seconds pass, the timer runs.
\<close>

definition cycle :: "nat \<Rightarrow> event list" where
  "cycle k = [Opened k, Closed k, Elapse 5000, Timeout 0]"

definition cycles :: "nat \<Rightarrow> event list" where
  "cycles n = concat (map cycle [0..<n])"

section \<open>Responses\<close>

text \<open>
  What \<^verbatim>\<open>await fetch(url)\<close> gives: an error when the promise rejects, else a
  response with its status and the text of its body. \<^verbatim>\<open>response.ok\<close> is a
  status from 200 to 299; \<^verbatim>\<open>response.json()\<close> parses the body.
\<close>

datatype response = Response (status: nat) (body: jstring)

definition ok :: "response \<Rightarrow> bool" where
  "ok r = (200 \<le> status r \<and> status r \<le> 299)"

definition response_json :: "response \<Rightarrow> js_error + json" where
  "response_json r = JSON_parse (body r)"

text \<open>\<^verbatim>\<open>${response.status}\<close>: the status is an integer, printed in decimal.\<close>

fun decimal :: "nat \<Rightarrow> string" where
  "decimal n =
     (if n < 10 then [''0123456789'' ! n]
      else decimal (n div 10) @ [''0123456789'' ! (n mod 10)])"

definition http_error :: "response \<Rightarrow> jtext" where
  "http_error r = [Lit (''HTTP error! status: '' @ decimal (status r))]"

section \<open>The crash history of the dashboard\<close>

text \<open>
  The table body is the list of its rows, a row the list of the texts of its cells.
  \<^verbatim>\<open>cell.textContent = v\<close> shows nothing for \<^verbatim>\<open>null\<close> and
  \<^verbatim>\<open>undefined\<close>.
\<close>

type_synonym row = "jtext list"

record dashboard = page +
  historyTbody :: "row list"
  historyStatus :: jtext
  loadHistoryBtn_disabled :: bool

fun textContent :: "json option \<Rightarrow> jtext" where
  "textContent None = []"
| "textContent (Some JNull) = []"
| "textContent (Some v) = [ToString (Some v)]"

text \<open>
  The body of the \<^verbatim>\<open>forEach\<close> callback: the row it leaves in the table, and what
  it throws if it throws. The row and its first cell are made before \<^verbatim>\<open>crash.id\<close>
  is read.
\<close>

definition history_row :: "json \<Rightarrow> row \<times> js_error option" where
  "history_row crash =
     (case get crash ''id'' of
        Inl e \<Rightarrow> ([[]], Some e)
      | Inr crash_id \<Rightarrow>
     (case get crash ''detection_timestamp'' of
        Inl e \<Rightarrow> ([textContent crash_id, []], Some e)
      | Inr detection_timestamp \<Rightarrow>
     (case get crash ''video_filename'' of
        Inl e \<Rightarrow> ([textContent crash_id, [LocaleString detection_timestamp], []], Some e)
      | Inr video_filename \<Rightarrow>
     (case get crash ''created_at'' of
        Inl e \<Rightarrow>
          ([textContent crash_id, [LocaleString detection_timestamp],
            textContent video_filename, []], Some e)
      | Inr created_at \<Rightarrow>
          ([textContent crash_id, [LocaleString detection_timestamp],
            textContent video_filename, [LocaleString created_at]], None)))))"

fun insert_rows :: "json list \<Rightarrow> row list \<Rightarrow> row list \<times> js_error option" where
  "insert_rows [] tbody = (tbody, None)"
| "insert_rows (crash # rest) tbody =
     (case history_row crash of
        (r, Some e) \<Rightarrow> (tbody @ [r], Some e)
      | (r, None) \<Rightarrow> insert_rows rest (tbody @ [r]))"

text \<open>\<^verbatim>\<open>historyData.length === 0\<close>\<close>

fun is_number_zero :: "json option \<Rightarrow> bool" where
  "is_number_zero (Some (JNumber q)) = is_zero q"
| "is_number_zero v = False"

text \<open>
  \<^verbatim>\<open>fetchCrashHistory\<close> up to its \<^verbatim>\<open>await fetch(...)\<close>.
\<close>

definition fetchCrashHistory_begin :: "dashboard \<Rightarrow> dashboard" where
  "fetchCrashHistory_begin st =
     (let st1 = console_write Log ''Fetching crash history...'' st
      in st1\<lparr>historyStatus := [Lit ''Loading history...''],
              historyTbody := [],
              loadHistoryBtn_disabled := True,
              requests := requests st1 @ [[Lit (API_BASE_URL Dashboard @ ''/api/crashes/history'')]]\<rparr>)"

text \<open>
  The body of its \<^verbatim>\<open>try\<close>, from the outcome of the \<^verbatim>\<open>fetch\<close>: the page
  it leaves, and what it throws if it throws. Only arrays have \<^verbatim>\<open>forEach\<close>.
\<close>

definition fetchCrashHistory_try ::
  "js_error + response \<Rightarrow> dashboard \<Rightarrow> dashboard \<times> js_error option" where
  "fetchCrashHistory_try fetched st =
     (case fetched of
        Inl e \<Rightarrow> (st, Some e)
      | Inr response \<Rightarrow>
          if \<not> ok response then (st, Some (Error (http_error response)))
          else
            (case response_json response of
               Inl e \<Rightarrow> (st, Some e)
             | Inr historyData \<Rightarrow>
                 (case get historyData ''length'' of
                    Inl e \<Rightarrow> (st, Some e)
                  | Inr len \<Rightarrow>
                      if is_number_zero len
                      then (st\<lparr>historyStatus := [Lit ''No crash history found.'']\<rparr>, None)
                      else
                        (let st1 = st\<lparr>historyStatus := []\<rparr>
                         in case historyData of
                              JArray crashes \<Rightarrow>
                                (case insert_rows crashes (historyTbody st1) of
                                   (tbody, thrown) \<Rightarrow> (st1\<lparr>historyTbody := tbody\<rparr>, thrown))
                            | _ \<Rightarrow> (st1, Some (Thrown TypeError))))))"

text \<open>The \<^verbatim>\<open>try\<close>, its \<^verbatim>\<open>catch\<close> and its \<^verbatim>\<open>finally\<close>.\<close>

definition fetchCrashHistory_resume :: "js_error + response \<Rightarrow> dashboard \<Rightarrow> dashboard" where
  "fetchCrashHistory_resume fetched st =
     (let st2 =
            (case fetchCrashHistory_try fetched st of
               (st1, None) \<Rightarrow> st1
             | (st1, Some error) \<Rightarrow>
                 (console_write Err ''Error fetching crash history:'' st1)
                   \<lparr>historyStatus := Lit ''Error loading history: '' # error_message error\<rparr>)
      in st2\<lparr>loadHistoryBtn_disabled := False\<rparr>)"

text \<open>One whole call, \<open>fetched\<close> being what the server answers.\<close>

definition fetchCrashHistory :: "js_error + response \<Rightarrow> dashboard \<Rightarrow> dashboard" where
  "fetchCrashHistory fetched st = fetchCrashHistory_resume fetched (fetchCrashHistory_begin st)"

section \<open>The weather advisory of the web app\<close>

record webapp = page +
  weatherInfoDiv :: jtext
  locationStatusP :: jtext
  refreshWeatherBtn_disabled :: bool

text \<open>A parameter with the default \<^verbatim>\<open>null\<close>.\<close>

fun default_null :: "json option \<Rightarrow> json" where
  "default_null None = JNull"
| "default_null (Some v) = v"

text \<open>
  \<^verbatim>\<open>fetchWeatherAndSpeed\<close> up to its \<^verbatim>\<open>await fetch(url)\<close>.
\<close>

definition weather_url :: "json \<Rightarrow> json \<Rightarrow> jtext" where
  "weather_url latitude longitude =
     Lit (API_BASE_URL Webapp @ ''/api/weather_conditions'')
     # (if latitude \<noteq> JNull \<and> longitude \<noteq> JNull
        then [Lit ''?lat='', ToString (Some latitude), Lit ''&lon='', ToString (Some longitude)]
        else [])"

definition fetchWeatherAndSpeed_begin :: "json option \<Rightarrow> json option \<Rightarrow> webapp \<Rightarrow> webapp" where
  "fetchWeatherAndSpeed_begin lat lon st =
     (let latitude = default_null lat;
          longitude = default_null lon;
          st1 = (console_write Log ''Fetching weather'' st)
                  \<lparr>weatherInfoDiv := [Lit ''<p>Fetching weather data...</p>''],
                   locationStatusP := [Lit ''Requesting weather...''],
                   refreshWeatherBtn_disabled := True\<rparr>;
          st2 = (if latitude \<noteq> JNull \<and> longitude \<noteq> JNull then st1
                 else st1\<lparr>locationStatusP := [Lit ''Using default location for weather.'']\<rparr>)
      in st2\<lparr>requests := requests st2 @ [weather_url latitude longitude]\<rparr>)"

text \<open>
  The detail of a response that is not \<^verbatim>\<open>ok\<close>: the inner \<^verbatim>\<open>try\<close>
  adds what the body says and ignores a body it cannot read.
\<close>

definition error_detail :: "response \<Rightarrow> jtext" where
  "error_detail r =
     http_error r @
     (case response_json r of
        Inl e \<Rightarrow> []
      | Inr errorJson \<Rightarrow>
          (case get errorJson ''detail'' of
             Inl e \<Rightarrow> []
           | Inr detail \<Rightarrow>
               [Lit '' - '', if truthy_opt detail then ToString detail else Stringify errorJson]))"

text \<open>The markup of the advisory; reading a field of \<^verbatim>\<open>null\<close> throws.\<close>

definition weather_markup :: "json \<Rightarrow> js_error + jtext" where
  "weather_markup data =
     (case get data ''weather_desc'' of Inl e \<Rightarrow> Inl e | Inr weather_desc \<Rightarrow>
     (case get data ''visibility_km'' of Inl e \<Rightarrow> Inl e | Inr visibility_km \<Rightarrow>
     (case get data ''is_raining'' of Inl e \<Rightarrow> Inl e | Inr is_raining \<Rightarrow>
     (case get data ''safe_speed_kmh'' of Inl e \<Rightarrow> Inl e | Inr safe_speed_kmh \<Rightarrow>
        Inr ([Lit ''<p><strong>Weather:</strong> '', or_else weather_desc ''N/A'',
              Lit ''</p><p><strong>Visibility:</strong> '']
             @ (if visibility_km \<noteq> Some JNull then [ToString visibility_km, Lit '' km'']
                else [Lit ''N/A''])
             @ [Lit ''</p><p><strong>Raining:</strong> '',
                Lit (if truthy_opt is_raining then ''Yes'' else ''No''),
                Lit ''</p><p><strong>Max Safe Speed:</strong> '',
                ToString safe_speed_kmh,
                Lit '' km/h</p>''])))))"

definition fetchWeatherAndSpeed_try ::
  "js_error + response \<Rightarrow> webapp \<Rightarrow> webapp \<times> js_error option" where
  "fetchWeatherAndSpeed_try fetched st =
     (case fetched of
        Inl e \<Rightarrow> (st, Some e)
      | Inr response \<Rightarrow>
          if \<not> ok response then (st, Some (Error (error_detail response)))
          else
            (case response_json response of
               Inl e \<Rightarrow> (st, Some e)
             | Inr data \<Rightarrow>
                 (case weather_markup data of
                    Inl e \<Rightarrow> (st, Some e)
                  | Inr markup \<Rightarrow>
                      (let st1 = st\<lparr>weatherInfoDiv := markup\<rparr>
                       in case get data ''location_used'' of
                            Inl e \<Rightarrow> (st1, Some e)
                          | Inr location_used \<Rightarrow>
                              (st1\<lparr>locationStatusP :=
                                      [Lit ''Weather based on: '', ToString location_used]\<rparr>,
                               None)))))"

definition fetchWeatherAndSpeed_resume :: "js_error + response \<Rightarrow> webapp \<Rightarrow> webapp" where
  \<open>fetchWeatherAndSpeed_resume fetched st =
     (let st2 =
            (case fetchWeatherAndSpeed_try fetched st of
               (st1, None) \<Rightarrow> st1
             | (st1, Some error) \<Rightarrow>
                 (console_write Err ''Error fetching weather data:'' st1)
                   \<lparr>weatherInfoDiv :=
                      Lit ''<p style="color: red;">Could not load weather data: ''
                      # error_message error @ [Lit ''</p>''],
                    locationStatusP := [Lit ''Failed to get weather.'']\<rparr>)
      in st2\<lparr>refreshWeatherBtn_disabled := False\<rparr>)\<close>


subsection \<open>The location\<close>





text \<open>\<^verbatim>\<open>requestLocationAndFetchWeather\<close> up to its first \<^verbatim>\<open>await\<close>.\<close>

definition requestLocation_begin :: "webapp \<Rightarrow> webapp" where
  "requestLocation_begin st =
     (console_write Log ''Requesting location via Capacitor plugin...'' st)
       \<lparr>locationStatusP := [Lit ''Requesting location permission...''],
        refreshWeatherBtn_disabled := True\<rparr>"



section \<open>Vocabulary of the statements\<close>

text \<open>
  A sequence of pushes: \<open>push_all\<close> calls the script's function once for each record
  and its flag, oldest first, and stops at the first call that throws.
  \<open>maxNotifications\<close> is the constant of that name in each function; \<open>item\<close> is the
  element a record is shown as, \<open>field\<close> a property of a value that is not
  \<^verbatim>\<open>null\<close>.
\<close>

definition field :: "json \<Rightarrow> string \<Rightarrow> json option" where
  "field v name = (case get v name of Inr x \<Rightarrow> x | Inl e \<Rightarrow> None)"

fun item :: "script \<Rightarrow> json \<times> bool \<Rightarrow> node" where
  "item Dashboard (crashData, isError) =
     notification_item (field crashData ''video_filename'')
       (field crashData ''detection_timestamp'') isError"
| "item Webapp (crashData, isError) =
     user_notification_item (field crashData ''video_filename'')
       (field crashData ''detection_timestamp'') isError"

fun maxNotifications :: "script \<Rightarrow> nat" where
  "maxNotifications Dashboard = 20"
| "maxNotifications Webapp = 10"

fun push_all :: "html_parser \<Rightarrow> script \<Rightarrow> (json \<times> bool) list \<Rightarrow> node list \<Rightarrow> js_error + node list" where
  "push_all html v [] ns = Inr ns"
| "push_all html v (p # ps) ns =
     (case add_notification html v (fst p) (snd p) ns of
        Inl e \<Rightarrow> Inl e
      | Inr ns' \<Rightarrow> push_all html v ps ns')"

text \<open>The longest initial part of a list of nodes that holds at most \<open>m\<close> elements.\<close>

fun keep :: "nat \<Rightarrow> node list \<Rightarrow> node list" where
  "keep m [] = []"
| "keep m (n # ns) =
     (if is_element n
      then (case m of 0 \<Rightarrow> [] | Suc k \<Rightarrow> n # keep k ns)
      else n # keep m ns)"

text \<open>
  No placeholder to clear: the first \<^verbatim>\<open>p\<close> below the nodes, if any, does not
  say \<^verbatim>\<open>Waiting\<close>. A record is plain when it is not \<^verbatim>\<open>null\<close>, the
  script can convert its fields and the element it is shown as is settled.
\<close>

definition settled :: "html_parser \<Rightarrow> node list \<Rightarrow> bool" where
  "settled html ns = (case querySelector_p html ns of Some t \<Rightarrow> \<not> text_includes t ''Waiting'' | None \<Rightarrow> True)"

definition plain :: "html_parser \<Rightarrow> script \<Rightarrow> json \<times> bool \<Rightarrow> bool" where
  "plain html v p =
     (fst p \<noteq> JNull
      \<and> \<not> truthy_throws (field (fst p) ''detection_timestamp'')
      \<and> \<not> truthy_throws (field (fst p) ''video_filename'')
      \<and> settled html [item v p])"

text \<open>A record with a file name and no time, not marked as an error.\<close>

definition named :: "string \<Rightarrow> json \<times> bool" where
  "named name = (JObject [(str ''video_filename'', JString (str name))], False)"

text \<open>A record whose file name is one capital letter: \<^verbatim>\<open>A\<close> for 0, \<^verbatim>\<open>B\<close> for 1 and so on.\<close>

definition alert :: "nat \<Rightarrow> json \<times> bool" where
  "alert n = (JObject [(str ''video_filename'', JString [65 + n])], False)"

text \<open>
  What the parser of the platform finds in the markup of the records of the examples: in
  the markup of a record whose file name is \<^verbatim>\<open><p>Waiting</p>\<close>, a
  \<^verbatim>\<open>p\<close> element with the text \<^verbatim>\<open>Waiting\<close>; in the markup of the
  others, whose file names and times hold no markup, none.
\<close>

definition example_html :: html_parser where
  "example_html h =
     (if ToString (Some (JString (str ''<p>Waiting</p>''))) \<in> set h
      then Some ''Waiting'' else None)"

text \<open>The envelope of the example, as text, and the record it carries.\<close>

definition a_mp4 :: json where
  "a_mp4 = JObject [(str ''video_filename'', JString (str ''a.mp4'')),
                    (str ''detection_timestamp'', JString (str ''2024-01-01T00:00:00Z''))]"

definition new_crash_a_mp4 :: jstring where
  \<open>new_crash_a_mp4 =
     str ''{"type":"new_crash","data":{"video_filename":"a.mp4","detection_timestamp":"2024-01-01T00:00:00Z"}}''\<close>

text \<open>
  The dashboard once its socket has opened: the page of the markup
  \<^verbatim>\<open><p>Waiting for crash alerts...</p>\<close>, loaded, its first socket open.
\<close>

definition open_page :: page where
  "open_page =
     \<lparr>notificationsDiv = [P ''Connected. Waiting for new crash alerts...''],
      console = [(Log, ''Attempting to connect WebSocket...''),
                 (Log, ''WebSocket connection established.'')],
      sockets = [OPEN], ws = Some 0, timers = [], clock = 0, loaded = True, requests = []\<rparr>"

text \<open>
  Before the load there is no socket and no timer; after it, the sockets not yet closed
  and the pending timers are one in all.
\<close>

definition one_attempt :: "'a page_scheme \<Rightarrow> bool" where
  "one_attempt st =
     (if loaded st then live st + length (timers st) = 1
      else sockets st = [] \<and> timers st = [])"

text \<open>A dashboard that shows two rows of an earlier fetch, its button enabled.\<close>

definition shown_dashboard :: dashboard where
  "shown_dashboard =
     \<lparr>notificationsDiv = [], console = [], sockets = [], ws = None, timers = [], clock = 0,
      loaded = True, requests = [],
      historyTbody = [[[Lit ''1''], [Lit ''a''], [Lit ''a.mp4''], [Lit ''b'']],
                      [[Lit ''2''], [Lit ''c''], [Lit ''b.mp4''], [Lit ''d'']]],
      historyStatus = [], loadHistoryBtn_disabled = False\<rparr>"







section \<open>The notification buffer is bounded\<close>

lemma keep_all: "length (children ns) \<le> m \<Longrightarrow> keep m ns = ns"
  by (induction ns arbitrary: m) (auto simp: children_def split: nat.splits)

lemma keep_butlast: "m < length (children ns) \<Longrightarrow> keep m (butlast ns) = keep m ns"
proof (induction ns arbitrary: m)
  case Nil
  then show ?case by (simp add: children_def)
next
  case (Cons n ns)
  show ?case
  proof (cases "ns = []")
    case True
    with Cons.prems show ?thesis
      by (auto simp: children_def split: nat.splits if_splits)
  next
    case False
    with Cons show ?thesis
      by (auto simp: children_def split: nat.splits)
  qed
qed

lemma remove_excess_keep: "remove_excess m ns = keep m ns"
proof (induction m ns rule: remove_excess.induct)
  case (1 m ns)
  show ?case
  proof (cases "m < length (children ns)")
    case True
    then have "remove_excess m ns = remove_excess m (butlast ns)"
      by (subst remove_excess.simps) simp
    with True 1 show ?thesis
      by (simp add: keep_butlast)
  next
    case False
    then have "remove_excess m ns = ns"
      by (subst remove_excess.simps) simp
    with False show ?thesis
      by (simp add: keep_all)
  qed
qed

lemma keep_prefix: "prefix (keep m ns) ns"
  by (induction ns arbitrary: m) (auto split: nat.splits)

lemma keep_keep: "keep m (keep n ns) = keep (min m n) ns"
  by (induction ns arbitrary: m n) (auto split: nat.splits)

lemma keep_elements:
  "\<forall>n \<in> set items. is_element n \<Longrightarrow> m < length items \<Longrightarrow> keep m (items @ rest) = take m items"
  by (induction items arbitrary: m) (auto split: nat.splits)

lemma settled_clear: "settled html (clear_placeholder html ns)"
  by (auto simp: settled_def clear_placeholder_def split: option.splits)

lemma clear_settled: "settled html ns \<Longrightarrow> clear_placeholder html ns = ns"
  by (auto simp: settled_def clear_placeholder_def split: option.splits)

lemma settled_Cons: "settled html [n] \<Longrightarrow> settled html ns \<Longrightarrow> settled html (n # ns)"
  by (cases n) (auto simp: settled_def split: option.splits)

lemma querySelector_p_keep:
  "querySelector_p html (keep m ns) = None
   \<or> querySelector_p html (keep m ns) = querySelector_p html ns"
  by (induction html ns arbitrary: m rule: querySelector_p.induct)
     (auto split: nat.splits option.splits)

lemma settled_keep: "settled html ns \<Longrightarrow> settled html (keep m ns)"
  using querySelector_p_keep [of html m ns] by (auto simp: settled_def)

lemma get_field: "c \<noteq> JNull \<Longrightarrow> get c name = Inr (field c name)"
  by (cases c) (simp_all add: field_def)

lemma add_notification_keep:
  "fst p \<noteq> JNull \<Longrightarrow>
   \<not> truthy_throws (field (fst p) ''detection_timestamp'') \<Longrightarrow>
   \<not> truthy_throws (field (fst p) ''video_filename'') \<Longrightarrow>
   add_notification html v (fst p) (snd p) ns =
     Inr (keep (maxNotifications v) (item v p # clear_placeholder html ns))"
  by (cases v; cases p)
     (simp_all add: addNotification_def addUserNotification_def get_field remove_excess_keep)

lemma add_notification_throws:
  "fst p \<noteq> JNull \<Longrightarrow>
   truthy_throws (field (fst p) ''detection_timestamp'')
   \<or> truthy_throws (field (fst p) ''video_filename'') \<Longrightarrow>
   add_notification html v (fst p) (snd p) ns = Inl (Thrown TypeError)"
  by (cases v; cases p)
     (auto simp: addNotification_def addUserNotification_def get_field)

lemma add_notification_plain:
  "plain html v p \<Longrightarrow>
   add_notification html v (fst p) (snd p) ns =
     Inr (keep (maxNotifications v) (item v p # clear_placeholder html ns))"
  by (simp add: plain_def add_notification_keep)

lemma item_Div: "\<exists>c s h. item v p = Div c s h"
  by (cases v; cases p) (simp_all add: notification_item_def user_notification_item_def)

lemma is_element_item: "is_element (item v p)"
  using item_Div [of v p] by auto

lemma settled_item: "plain html v p \<Longrightarrow> settled html ns \<Longrightarrow> settled html (item v p # ns)"
  by (simp add: plain_def settled_Cons)

lemma settled_items: "\<forall>p \<in> set ps. plain html v p \<Longrightarrow> settled html (map (item v) ps)"
proof (induction ps)
  case Nil
  show ?case by (simp add: settled_def)
next
  case (Cons p ps)
  then show ?case by (simp add: settled_item)
qed

lemma keep_Cons_keep: "is_element n \<Longrightarrow> keep m (n # keep m ns) = keep m (n # ns)"
  by (cases m) (simp_all add: keep_keep)

lemma push_all_append:
  "push_all html v (ps @ qs) ns =
     (case push_all html v ps ns of Inl e \<Rightarrow> Inl e | Inr ns' \<Rightarrow> push_all html v qs ns')"
  by (induction ps arbitrary: ns) (auto split: sum.splits)

lemma push_all_settled:
  "settled html b \<Longrightarrow> \<forall>p \<in> set ps. plain html v p \<Longrightarrow>
   push_all html v ps (keep (maxNotifications v) b) =
     Inr (keep (maxNotifications v) (rev (map (item v) ps) @ b))"
proof (induction ps arbitrary: b)
  case Nil
  then show ?case by simp
next
  case (Cons p ps)
  let ?m = "maxNotifications v"
  have "add_notification html v (fst p) (snd p) (keep ?m b) =
        Inr (keep ?m (item v p # clear_placeholder html (keep ?m b)))"
    using Cons.prems by (simp add: add_notification_plain)
  also have "clear_placeholder html (keep ?m b) = keep ?m b"
    using Cons.prems by (simp add: clear_settled settled_keep)
  also have "keep ?m (item v p # keep ?m b) = keep ?m (item v p # b)"
    by (rule keep_Cons_keep) (rule is_element_item)
  finally have "add_notification html v (fst p) (snd p) (keep ?m b) = Inr (keep ?m (item v p # b))" .
  moreover have "push_all html v ps (keep ?m (item v p # b)) =
                 Inr (keep ?m (rev (map (item v) ps) @ item v p # b))"
    using Cons.prems by (intro Cons.IH) (simp_all add: settled_item)
  ultimately show ?case by simp
qed

lemma push_all_most_recent:
  assumes "\<forall>p \<in> set ps. plain html v p" and "maxNotifications v < length ps"
  shows "push_all html v ps ns = Inr (map (item v) (take (maxNotifications v) (rev ps)))"
proof (cases ps)
  case Nil
  with assms show ?thesis by simp
next
  case (Cons p qs)
  let ?m = "maxNotifications v"
  let ?b = "item v p # clear_placeholder html ns"
  from assms Cons have p: "plain html v p" and qs: "\<forall>q \<in> set qs. plain html v q"
    by simp_all
  have "push_all html v ps ns = push_all html v qs (keep ?m ?b)"
    unfolding Cons by (simp add: add_notification_plain [OF p])
  also have "\<dots> = Inr (keep ?m (rev (map (item v) qs) @ ?b))"
    using qs p by (intro push_all_settled) (simp_all add: settled_item settled_clear)
  also have "rev (map (item v) qs) @ ?b = rev (map (item v) ps) @ clear_placeholder html ns"
    using Cons by simp
  also have "keep ?m (rev (map (item v) ps) @ clear_placeholder html ns) = take ?m (rev (map (item v) ps))"
    using assms by (intro keep_elements) (auto simp: is_element_item)
  finally show ?thesis by (simp add: rev_map take_map)
qed

lemma push_at_head:
  assumes "plain html v p"
  shows "\<exists>ms'. add_notification html v (fst p) (snd p) ms = Inr ms'
           \<and> hd ms' = item v p
           \<and> prefix ms' (item v p # clear_placeholder html ms)"
proof -
  let ?ms = "keep (maxNotifications v) (item v p # clear_placeholder html ms)"
  have "0 < maxNotifications v"
    by (cases v) simp_all
  then have "hd ?ms = item v p"
    by (cases "maxNotifications v") (simp_all add: is_element_item)
  moreover have "add_notification html v (fst p) (snd p) ms = Inr ?ms"
    using assms by (rule add_notification_plain)
  moreover have "prefix ?ms (item v p # clear_placeholder html ms)"
    by (rule keep_prefix)
  ultimately show ?thesis
    by blast
qed

text \<open>
  Where the bound holds. The records are plain: none is \<^verbatim>\<open>null\<close>, the
  script can convert their fields, and the parser finds no \<^verbatim>\<open>p\<close> element that
  says \<^verbatim>\<open>Waiting\<close> in the markup of any. Then after more pushes than
  \<open>maxNotifications\<close> (20 on the dashboard, 10 in the web app), whatever the area held
  before, it holds exactly \<open>maxNotifications\<close> nodes: the elements of the most recent
  records, the most recent first.
\<close>

lemma plain_records_most_recent:
  assumes "\<forall>p \<in> set ps. plain html v p" and "maxNotifications v < length ps"
  shows "push_all html v ps ns = Inr (map (item v) (take (maxNotifications v) (rev ps)))
         \<and> length (map (item v) (take (maxNotifications v) (rev ps))) = maxNotifications v"
  using assms by (simp add: push_all_most_recent)

lemma plain_alert: "plain example_html v (alert n)"
  by (cases v)
     (simp_all add: plain_def alert_def field_def settled_def example_html_def str_def
        notification_item_def user_notification_item_def)

lemma plain_records_example:
  "push_all example_html Dashboard (map alert [0..<21]) [P ''Waiting for crash alerts...'']
     = Inr (map (item Dashboard) (map alert (rev [1..<21])))
   \<and> push_all example_html Webapp (map alert [0..<11]) [P ''Waiting for crash alerts...'']
     = Inr (map (item Webapp) (map alert (rev [1..<11])))"
proof -
  have a: "\<forall>p \<in> set (map alert [0..<n]). plain example_html v p" for n v
    by (simp add: plain_alert)
  have d: "take 20 (rev (map alert [0..<21])) = map alert (rev [1..<21])"
    by (simp add: upt_rec [of 0 21] rev_map [symmetric] del: upt_Suc)
  have w: "take 10 (rev (map alert [0..<11])) = map alert (rev [1..<11])"
    by (simp add: upt_rec [of 0 11] rev_map [symmetric] del: upt_Suc)
  show ?thesis
    using plain_records_most_recent [OF a [of 21 Dashboard], of "[P ''Waiting for crash alerts...'']"]
          plain_records_most_recent [OF a [of 11 Webapp], of "[P ''Waiting for crash alerts...'']"]
    by (simp only: d w maxNotifications.simps length_map length_upt)
qed

lemma push_after_waiting:
  assumes "querySelector_p html [item v q] = Some t" and "text_includes t ''Waiting''"
  shows "clear_placeholder html (item v q # ns) = []"
proof -
  obtain c s h where q: "item v q = Div c s h"
    using item_Div by blast
  with assms(1) have "html h = Some t"
    by (simp split: option.splits)
  with q assms(2) show ?thesis
    by (simp add: clear_placeholder_def)
qed

text \<open>
  C1 fails on the scripts. The function means to remove the placeholder the page starts
  with, to put the newest notification at the top and to limit the number shown: the
  comments of the dashboard script say so (\<^verbatim>\<open>// Remove placeholder if it exists\<close>,
  \<^verbatim>\<open>// Add newest notification at the top\<close>,
  \<^verbatim>\<open>// Optional: Limit number of notifications shown\<close>). But the markup of a
  notification holds the file name of its record as it came, without escaping, and the
  test for the placeholder takes the first \<^verbatim>\<open>p\<close> element anywhere below the
  area. When the parser finds
  a \<^verbatim>\<open>p\<close> element that says \<^verbatim>\<open>Waiting\<close> in the markup of the
  record at the head, the next push takes the notifications for the placeholder and
  removes them all: whatever the area held, it holds one element after the push, the
  element of the new record. So eleven pushes in the web app, the tenth of a record whose
  file name is \<^verbatim>\<open><p>Waiting</p>\<close>, leave one notification and not the ten
  most recent.
\<close>

theorem markup_file_name_empties_buffer:
  assumes "querySelector_p html [item v q] = Some t" and "text_includes t ''Waiting''"
  shows "push_all html v [named w] (item v q # ns) = Inr [item v (named w)]"
proof -
  have w: "fst (named w) \<noteq> JNull"
    "\<not> truthy_throws (field (fst (named w)) ''detection_timestamp'')"
    "\<not> truthy_throws (field (fst (named w)) ''video_filename'')"
    by (simp_all add: named_def field_def str_def)
  have "0 < maxNotifications v"
    by (cases v) simp_all
  then have "keep (maxNotifications v) [item v (named w)] = [item v (named w)]"
    by (cases "maxNotifications v") (simp_all add: is_element_item)
  then show ?thesis
    using add_notification_keep [OF w, of html v "item v q # ns"] push_after_waiting [OF assms, of ns]
    by simp
qed

theorem markup_file_name_empties_buffer_witness:
  "push_all example_html Webapp (map alert [0..<9]) []
     = Inr (map (item Webapp) (map alert (rev [0..<9])))
   \<and> push_all example_html Webapp (map alert [0..<9] @ [named ''<p>Waiting</p>'']) []
     = Inr (item Webapp (named ''<p>Waiting</p>'') # map (item Webapp) (map alert (rev [0..<9])))
   \<and> push_all example_html Webapp (map alert [0..<9] @ [named ''<p>Waiting</p>'', named ''K'']) []
     = Inr [item Webapp (named ''K'')]"
proof -
  let ?w = "named ''<p>Waiting</p>''"
  let ?nine = "map (item Webapp) (map alert (rev [0..<9]))"
  have a: "\<forall>p \<in> set (map alert [0..<9]). plain example_html Webapp p"
    by (simp add: plain_alert)
  have "length (children (rev (map (item Webapp) (map alert [0..<9])))) \<le> 10"
    unfolding children_def by (rule order_trans [OF length_filter_le]) simp
  then have k: "keep 10 (rev (map (item Webapp) (map alert [0..<9]))) = ?nine"
    by (simp only: keep_all rev_map)
  have s: "settled example_html []"
    by (simp add: settled_def)
  have 1: "push_all example_html Webapp (map alert [0..<9]) [] = Inr ?nine"
    using push_all_settled [OF s a] k by simp
  have "\<forall>p \<in> set (map alert (rev [0..<9])). plain example_html Webapp p"
    by (simp add: plain_alert)
  then have sn: "clear_placeholder example_html ?nine = ?nine"
    by (intro clear_settled settled_items)
  have "length (children (item Webapp ?w # ?nine)) \<le> 10"
    unfolding children_def by (rule order_trans [OF length_filter_le]) simp
  then have kw: "keep 10 (item Webapp ?w # ?nine) = item Webapp ?w # ?nine"
    by (rule keep_all)
  have w: "fst ?w \<noteq> JNull"
    "\<not> truthy_throws (field (fst ?w) ''detection_timestamp'')"
    "\<not> truthy_throws (field (fst ?w) ''video_filename'')"
    by (simp_all add: named_def field_def str_def)
  have 2: "push_all example_html Webapp (map alert [0..<9] @ [?w]) [] = Inr (item Webapp ?w # ?nine)"
    using add_notification_keep [OF w, of example_html Webapp ?nine]
    by (simp only: push_all_append 1 sum.case push_all.simps sn kw maxNotifications.simps)
  have q: "querySelector_p example_html [item Webapp ?w] = Some ''Waiting''"
    by (simp add: named_def field_def user_notification_item_def example_html_def str_def)
  have t: "text_includes ''Waiting'' ''Waiting''"
    by simp
  have "map alert [0..<9] @ [?w, named ''K''] = (map alert [0..<9] @ [?w]) @ [named ''K'']"
    by simp
  then have 3: "push_all example_html Webapp (map alert [0..<9] @ [?w, named ''K'']) []
                = Inr [item Webapp (named ''K'')]"
    using markup_file_name_empties_buffer [OF q t, of "''K''" ?nine]
    by (simp only: push_all_append [of _ _ "map alert [0..<9] @ [?w]"] 2 sum.case)
  from 1 2 3 show ?thesis
    by (simp only: simp_thms)
qed

section \<open>Inbound messages\<close>

lemma parse_new_crash_a_mp4:
  "JSON_parse new_crash_a_mp4 =
     Inr (JObject [(str ''type'', JString (str ''new_crash'')), (str ''data'', a_mp4)])"
  unfolding new_crash_a_mp4_def a_mp4_def by code_simp

lemma onmessage_try_a_mp4:
  "onmessage_try html v new_crash_a_mp4 ns = add_notification html v a_mp4 False ns"
  by (simp add: onmessage_try_def parse_new_crash_a_mp4 str_def a_mp4_def)

lemma not_dispatched:
  assumes "JSON_parse raw = Inl e
           \<or> (\<exists>m. JSON_parse raw = Inr m
                 \<and> (get m ''type'' \<noteq> Inr (Some (JString (str ''new_crash'')))
                      \<or> get m ''data'' = Inr None))"
  shows "onmessage_try html v raw ns = Inr ns \<or> (\<exists>e. onmessage_try html v raw ns = Inl e)"
  using assms by (auto simp: onmessage_try_def split: sum.splits option.splits)

lemma hd_remove_excess_item:
  "hd (remove_excess (maxNotifications v) (item v p # ns)) = item v p"
  by (cases v) (simp_all add: remove_excess_keep is_element_item)

text \<open>
  C2. The handler of either script, given the text
  \<^verbatim>\<open>{"type":"new_crash","data":{"video_filename":"a.mp4","detection_timestamp":"2024-01-01T00:00:00Z"}}\<close>,
  parses it to the envelope and calls the script's notification function exactly once,
  with the record whose \<^verbatim>\<open>video_filename\<close> is \<^verbatim>\<open>a.mp4\<close>: the body
  of its \<^verbatim>\<open>try\<close> is that one call, the page afterwards is the page before with
  the message logged and the element of that record put at the head of the notification
  area.
\<close>

theorem new_crash_dispatched_once:
  "JSON_parse new_crash_a_mp4 =
     Inr (JObject [(str ''type'', JString (str ''new_crash'')), (str ''data'', a_mp4)])
   \<and> field a_mp4 ''video_filename'' = Some (JString (str ''a.mp4''))
   \<and> onmessage_try html v new_crash_a_mp4 ns = add_notification html v a_mp4 False ns
   \<and> ws_onmessage html v new_crash_a_mp4 st =
       (console_write Log (message_received v) st)
         \<lparr>notificationsDiv :=
            remove_excess (maxNotifications v)
              (item v (a_mp4, False) # clear_placeholder html (notificationsDiv st))\<rparr>
   \<and> hd (notificationsDiv (ws_onmessage html v new_crash_a_mp4 st)) = item v (a_mp4, False)"
proof -
  have a: "fst (a_mp4, False) \<noteq> JNull"
    "\<not> truthy_throws (field (fst (a_mp4, False)) ''detection_timestamp'')"
    "\<not> truthy_throws (field (fst (a_mp4, False)) ''video_filename'')"
    by (simp_all add: a_mp4_def field_def str_def)
  have add: "add_notification html v a_mp4 False ms =
             Inr (remove_excess (maxNotifications v) (item v (a_mp4, False) # clear_placeholder html ms))"
    for ms
    using add_notification_keep [OF a, of html v ms] by (simp add: remove_excess_keep)
  have on: "ws_onmessage html v new_crash_a_mp4 st =
       (console_write Log (message_received v) st)
         \<lparr>notificationsDiv :=
            remove_excess (maxNotifications v)
              (item v (a_mp4, False) # clear_placeholder html (notificationsDiv st))\<rparr>"
    by (simp add: ws_onmessage_def onmessage_try_a_mp4 add console_write_def)
  show ?thesis
    by (simp add: parse_new_crash_a_mp4 onmessage_try_a_mp4 on hd_remove_excess_item)
       (simp add: field_def a_mp4_def str_def)
qed

theorem new_crash_dispatched_once_witness:
  "notificationsDiv (ws_onmessage example_html Dashboard new_crash_a_mp4 (fresh [P ''Waiting for crash alerts...'']))
   = [Div [''notification-item''] []
        [Lit ''\<newline>        <strong>Crash Alert!</strong><br>\<newline>        Video: '',
         ToString (Some (JString (str ''a.mp4''))),
         Lit ''<br>\<newline>        Time: '',
         LocaleString (Some (JString (str ''2024-01-01T00:00:00Z''))),
         Lit ''\<newline>    '']]"
proof -
  have "remove_excess 20 [n] = [n]" for n
    by (subst remove_excess.simps) (simp add: children_def)
  then show ?thesis
    using new_crash_dispatched_once [of example_html Dashboard "[]" "fresh [P ''Waiting for crash alerts...'']"]
    by (simp add: fresh_def console_write_def clear_placeholder_def notification_item_def
          field_def a_mp4_def str_def)
qed

text \<open>
  C3. A message that is not JSON, or whose \<^verbatim>\<open>type\<close> is not
  \<^verbatim>\<open>new_crash\<close> (a value with no such property and \<^verbatim>\<open>null\<close>
  included), or that has no \<^verbatim>\<open>data\<close>, leaves the notification area as it
  was. The handler returns, and all it changes is the console, where it logs.
\<close>

theorem malformed_message_dropped:
  assumes "JSON_parse raw = Inl e
           \<or> (\<exists>m. JSON_parse raw = Inr m
                 \<and> (get m ''type'' \<noteq> Inr (Some (JString (str ''new_crash'')))
                      \<or> get m ''data'' = Inr None))"
  shows "notificationsDiv (ws_onmessage html v raw st) = notificationsDiv st
         \<and> (\<exists>logged. ws_onmessage html v raw st = st\<lparr>console := console st @ logged\<rparr>)"
proof -
  let ?ns = "notificationsDiv st"
  have ns: "notificationsDiv (console_write l m st) = ?ns" for l m
    by (simp add: console_write_def)
  from not_dispatched [OF assms, of html v ?ns]
  consider "onmessage_try html v raw ?ns = Inr ?ns" | err where "onmessage_try html v raw ?ns = Inl err"
    by blast
  then show ?thesis
  proof cases
    case 1
    then have "ws_onmessage html v raw st = st\<lparr>console := console st @ [(Log, message_received v)]\<rparr>"
      by (simp add: ws_onmessage_def console_write_def)
    then show ?thesis
      by (metis ns console_write_def)
  next
    case 2
    then have "ws_onmessage html v raw st =
               st\<lparr>console := console st @ [(Log, message_received v), (Err, parse_failed v)]\<rparr>"
      by (simp add: ws_onmessage_def console_write_def)
    then show ?thesis
      by (simp add: exI [of _ "[(Log, message_received v), (Err, parse_failed v)]"])
  qed
qed

theorem malformed_message_dropped_witness:
  \<open>notificationsDiv (ws_onmessage example_html Dashboard (str ''{"type":"other"}'') (fresh [P ''Waiting'']))
     = [P ''Waiting'']
   \<and> notificationsDiv (ws_onmessage example_html Webapp (str ''not json'') (fresh [P ''Waiting'']))
     = [P ''Waiting'']
   \<and> notificationsDiv (ws_onmessage example_html Dashboard (str ''{"type":"new_crash"}'') (fresh [P ''Waiting'']))
     = [P ''Waiting'']\<close>
proof -
  have 1: \<open>JSON_parse (str ''{"type":"other"}'') = Inr (JObject [(str ''type'', JString (str ''other''))])\<close>
    by code_simp
  have 2: "JSON_parse (str ''not json'') = Inl (Thrown SyntaxError)"
    by code_simp
  have 3: \<open>JSON_parse (str ''{"type":"new_crash"}'') = Inr (JObject [(str ''type'', JString (str ''new_crash''))])\<close>
    by code_simp
  show ?thesis
    using malformed_message_dropped [of _ "Thrown SyntaxError" example_html Dashboard "fresh [P ''Waiting'']", OF disjI2, OF exI, OF conjI, OF 1 disjI1]
          malformed_message_dropped [of _ "Thrown SyntaxError" example_html Webapp "fresh [P ''Waiting'']", OF disjI1, OF 2]
          malformed_message_dropped [of _ "Thrown SyntaxError" example_html Dashboard "fresh [P ''Waiting'']", OF disjI2, OF exI, OF conjI, OF 3 disjI2]
    by (simp add: fresh_def str_def)
qed

text \<open>
  A record with a field the template cannot convert is not shown: the notification
  function throws inside the \<^verbatim>\<open>try\<close> of the handler, and the area is as it was.
\<close>

lemma parse_unconvertible:
  \<open>JSON_parse (str ''{"type":"new_crash","data":{"video_filename":{"toString":0,"valueOf":0}}}'')
     = Inr (JObject [(str ''type'', JString (str ''new_crash'')),
                     (str ''data'', JObject [(str ''video_filename'',
                        JObject [(str ''toString'', JNumber 0), (str ''valueOf'', JNumber 0)])])])\<close>
  by code_simp

lemma unconvertible_field_throws:
  \<open>onmessage_try html v
      (str ''{"type":"new_crash","data":{"video_filename":{"toString":0,"valueOf":0}}}'') ns
     = Inl (Thrown TypeError)\<close>
  by (cases v;
      simp add: parse_unconvertible onmessage_try_def;
      simp add: addNotification_def addUserNotification_def str_def)

lemma unconvertible_field_dropped:
  \<open>notificationsDiv (ws_onmessage html v
      (str ''{"type":"new_crash","data":{"video_filename":{"toString":0,"valueOf":0}}}'') st)
     = notificationsDiv st\<close>
  by (simp add: ws_onmessage_def unconvertible_field_throws console_write_def)

section \<open>The connection\<close>

lemma open_page_reached:
  "run html Dashboard [DOMContentLoaded, Opened 0] (fresh [P ''Waiting for crash alerts...'']) = Some open_page"
  by (simp add: fresh_def open_page_def connectWebSocket_def console_write_def socket_is_def
        set_socket_def ws_onopen_def)

lemma handler_fields [simp]:
  "sockets (console_write l m st) = sockets st"
  "timers (console_write l m st) = timers st"
  "clock (console_write l m st) = clock st"
  "loaded (console_write l m st) = loaded st"
  "notificationsDiv (console_write l m st) = notificationsDiv st"
  "sockets (ws_onopen html v st) = sockets st"
  "timers (ws_onopen html v st) = timers st"
  "loaded (ws_onopen html v st) = loaded st"
  "clock (ws_onopen html v st) = clock st"
  "sockets (ws_onmessage html v d st) = sockets st"
  "timers (ws_onmessage html v d st) = timers st"
  "loaded (ws_onmessage html v d st) = loaded st"
  "clock (ws_onmessage html v d st) = clock st"
  "sockets (ws_onerror html v now st) = sockets st"
  "timers (ws_onerror html v now st) = timers st"
  "loaded (ws_onerror html v now st) = loaded st"
  "clock (ws_onerror html v now st) = clock st"
  "sockets (ws_onclose v st) = sockets st"
  "timers (ws_onclose v st) = timers st @ [clock st + 5000]"
  "loaded (ws_onclose v st) = loaded st"
  "clock (ws_onclose v st) = clock st"
  "notificationsDiv (ws_onclose v st) = [P (disconnected_text v)]"
  "sockets (connectWebSocket v st) = sockets st @ [CONNECTING]"
  "timers (connectWebSocket v st) = timers st"
  "loaded (connectWebSocket v st) = loaded st"
  "clock (connectWebSocket v st) = clock st"
  "notificationsDiv (connectWebSocket v st) = notificationsDiv st"
  "sockets (set_socket i s st) = (sockets st)[i := s]"
  "timers (set_socket i s st) = timers st"
  "loaded (set_socket i s st) = loaded st"
  "clock (set_socket i s st) = clock st"
  "notificationsDiv (set_socket i s st) = notificationsDiv st"
  by (simp_all add: console_write_def ws_onopen_def ws_onmessage_def ws_onerror_def
        ws_onclose_def connectWebSocket_def set_socket_def Let_def
        split: option.splits sum.splits)

lemma live_append [simp]: "live (connectWebSocket v st) = Suc (live st)"
  by (simp add: live_def)

lemma filter_update_open:
  "i < length xs \<Longrightarrow> xs ! i \<noteq> CLOSED \<Longrightarrow>
   length (filter (\<lambda>s. s \<noteq> CLOSED) xs) =
     (if y = CLOSED then Suc (length (filter (\<lambda>s. s \<noteq> CLOSED) (xs[i := y])))
      else length (filter (\<lambda>s. s \<noteq> CLOSED) (xs[i := y])))"
  by (induction xs arbitrary: i) (auto split: nat.splits)

lemma live_set_socket:
  "i < length (sockets st) \<Longrightarrow> sockets st ! i \<noteq> CLOSED \<Longrightarrow>
   live st = (if s = CLOSED then Suc (live (set_socket i s st)) else live (set_socket i s st))"
  using filter_update_open [of i "sockets st" s] by (simp add: live_def)

lemma live_update [simp]:
  "live (st\<lparr>timers := t\<rparr>) = live st"
  "live (st\<lparr>loaded := b\<rparr>) = live st"
  "live (st\<lparr>clock := c\<rparr>) = live st"
  by (simp_all add: live_def)

lemma live_handlers [simp]:
  "live (ws_onopen html v st) = live st"
  "live (ws_onmessage html v d st) = live st"
  "live (ws_onerror html v now st) = live st"
  "live (ws_onclose v st) = live st"
  by (simp_all add: live_def)

lemma deliver_one_attempt:
  assumes "one_attempt st" and "deliver html v e st = Some st'"
  shows "one_attempt st'"
proof (cases e)
  case DOMContentLoaded
  with assms show ?thesis
    by (auto simp: one_attempt_def live_def split: if_splits)
next
  case (Opened i)
  with assms show ?thesis
    using live_set_socket [of i st OPEN]
    by (auto simp: one_attempt_def socket_is_def split: if_splits)
next
  case (Message i d)
  with assms show ?thesis
    by (auto simp: one_attempt_def split: if_splits)
next
  case (Errored i now)
  with assms show ?thesis
    using live_set_socket [of i st FAILED]
    by (auto simp: one_attempt_def socket_is_def split: if_splits)
next
  case (Closed i)
  with assms have i: "i < length (sockets st)" "sockets st ! i \<noteq> CLOSED"
    and st': "st' = ws_onclose v (set_socket i CLOSED st)"
    by (auto simp: socket_is_def split: if_splits)
  from live_set_socket [OF i, of CLOSED]
  have l: "live st = Suc (live (set_socket i CLOSED st))"
    by simp
  from assms(1) i have "loaded st" and "live st + length (timers st) = 1"
    by (auto simp: one_attempt_def split: if_splits)
  with l have "live (set_socket i CLOSED st) = 0" and "timers st = []"
    by simp_all
  with st' \<open>loaded st\<close> show ?thesis
    by (simp add: one_attempt_def)
next
  case (Timeout k)
  with assms have k: "k < length (timers st)"
    and st': "st' = connectWebSocket v (st\<lparr>timers := take k (timers st) @ drop (Suc k) (timers st)\<rparr>)"
    by (auto split: if_splits)
  from assms(1) k have "loaded st" and "live st + length (timers st) = 1"
    by (auto simp: one_attempt_def split: if_splits)
  with k have "live st = 0" and "length (timers st) = 1" and "k = 0"
    by simp_all
  with st' \<open>loaded st\<close> show ?thesis
    by (simp add: one_attempt_def)
next
  case (Elapse d)
  with assms show ?thesis
    by (auto simp: one_attempt_def)
qed

lemma run_one_attempt:
  "one_attempt st \<Longrightarrow> run html v es st = Some st' \<Longrightarrow> one_attempt st'"
proof (induction es arbitrary: st)
  case Nil
  then show ?case by simp
next
  case (Cons e es)
  then show ?case
    by (auto split: option.splits dest: deliver_one_attempt)
qed

lemma one_attempt_fresh: "one_attempt (fresh ns)"
  by (simp add: one_attempt_def fresh_def)

lemma run_append:
  "run html v (es @ fs) st = (case run html v es st of None \<Rightarrow> None | Some st' \<Rightarrow> run html v fs st')"
  by (induction es arbitrary: st) (auto split: option.splits)

lemma update_last: "(replicate n c @ [x])[n := y] = replicate n c @ [y]"
  using list_update_length [of "replicate n c" x "[]" y] by simp

lemma cycle_run:
  assumes "sockets st = replicate n CLOSED @ [CONNECTING]" and "timers st = []"
  shows "\<exists>st'. run html v (cycle n) st = Some st'
           \<and> sockets st' = replicate (Suc n) CLOSED @ [CONNECTING]
           \<and> timers st' = [] \<and> clock st' = clock st + 5000"
proof -
  have n: "socket_is st n CONNECTING"
    using assms by (simp add: socket_is_def nth_append)
  let ?st1 = "ws_onopen html v (set_socket n OPEN st)"
  have 1: "deliver html v (Opened n) st = Some ?st1" and s1: "sockets ?st1 = replicate n CLOSED @ [OPEN]"
    using n assms by (simp_all add: update_last)
  let ?st2 = "ws_onclose v (set_socket n CLOSED ?st1)"
  have 2: "deliver html v (Closed n) ?st1 = Some ?st2"
    using s1 by (simp add: socket_is_def nth_append)
  have s2: "sockets ?st2 = replicate (Suc n) CLOSED" "timers ?st2 = [clock st + 5000]"
    using s1 assms by (simp_all add: update_last replicate_append_same)
  let ?st3 = "?st2\<lparr>clock := clock ?st2 + 5000\<rparr>"
  have 3: "deliver html v (Elapse 5000) ?st2 = Some ?st3"
    by simp
  let ?st4 = "connectWebSocket v (?st3\<lparr>timers := take 0 (timers ?st3) @ drop (Suc 0) (timers ?st3)\<rparr>)"
  have 4: "deliver html v (Timeout 0) ?st3 = Some ?st4"
    using s2 by simp
  have "run html v (cycle n) st = Some ?st4"
    unfolding cycle_def using 1 2 3 4 by simp
  moreover have "sockets ?st4 = replicate (Suc n) CLOSED @ [CONNECTING]"
    using s2 by simp
  moreover have "timers ?st4 = []" and "clock ?st4 = clock st + 5000"
    using s2 by simp_all
  ultimately show ?thesis
    by blast
qed

lemma cycles_run:
  "\<exists>st. run html v (DOMContentLoaded # cycles n) (fresh ns) = Some st
         \<and> sockets st = replicate n CLOSED @ [CONNECTING]
         \<and> timers st = [] \<and> clock st = 5000 * n"
proof (induction n)
  case 0
  show ?case
    by (simp add: cycles_def fresh_def)
next
  case (Suc n)
  then obtain st where st: "run html v (DOMContentLoaded # cycles n) (fresh ns) = Some st"
    "sockets st = replicate n CLOSED @ [CONNECTING]" "timers st = []" "clock st = 5000 * n"
    by blast
  from cycle_run [OF st(2,3), of html v] obtain st' where st': "run html v (cycle n) st = Some st'"
    "sockets st' = replicate (Suc n) CLOSED @ [CONNECTING]" "timers st' = []"
    "clock st' = clock st + 5000"
    by blast
  have "DOMContentLoaded # cycles (Suc n) = (DOMContentLoaded # cycles n) @ cycle n"
    by (simp add: cycles_def)
  then have "run html v (DOMContentLoaded # cycles (Suc n)) (fresh ns) = Some st'"
    using st(1) st'(1) by (simp only: run_append option.case)
  with st' st(4) show ?case
    by auto
qed

text \<open>
  C5. Whenever a socket closes, whatever the page has been through, its handler asks for
  \<^verbatim>\<open>connectWebSocket\<close> to run 5000 ms later: the delay is the same constant at
  every close. The timer does not run before its time, and when it runs a new socket
  starts connecting. Losses and retries go on without end: for every \<open>n\<close>, after
  \<open>n\<close> rounds of open, close, five seconds and the timer, \<open>n\<close> sockets have closed,
  the next one is connecting and no timer is left.
\<close>

theorem reconnect_after_fixed_delay:
  "(socket_is st i CONNECTING \<or> socket_is st i OPEN \<or> socket_is st i FAILED \<longrightarrow>
      (\<exists>st'. deliver html v (Closed i) st = Some st' \<and> timers st' = timers st @ [clock st + 5000]))
   \<and> (k < length (timers st) \<and> clock st < timers st ! k \<longrightarrow> deliver html v (Timeout k) st = None)
   \<and> (k < length (timers st) \<and> timers st ! k \<le> clock st \<longrightarrow>
        (\<exists>st'. deliver html v (Timeout k) st = Some st'
           \<and> sockets st' = sockets st @ [CONNECTING]
           \<and> timers st' = take k (timers st) @ drop (Suc k) (timers st)))
   \<and> (\<exists>st'. run html v (DOMContentLoaded # cycles n) (fresh ns) = Some st'
         \<and> sockets st' = replicate n CLOSED @ [CONNECTING]
         \<and> timers st' = [] \<and> clock st' = 5000 * n)"
  using cycles_run [of html v n ns] by simp

theorem reconnect_after_fixed_delay_witness:
  "(\<exists>st'. deliver example_html Dashboard (Closed 0) open_page = Some st' \<and> timers st' = [5000])
   \<and> deliver example_html Webapp (Timeout 0) (open_page\<lparr>timers := [5000], clock := 4999\<rparr>) = None
   \<and> (\<exists>st'. deliver example_html Webapp (Timeout 0) (open_page\<lparr>timers := [5000], clock := 5000\<rparr>) = Some st'
         \<and> sockets st' = [OPEN, CONNECTING] \<and> timers st' = [])
   \<and> (\<exists>st'. run example_html Dashboard (DOMContentLoaded # cycles 3) (fresh []) = Some st'
         \<and> sockets st' = [CLOSED, CLOSED, CLOSED, CONNECTING]
         \<and> timers st' = [] \<and> clock st' = 15000)"
proof -
  have r: "replicate 3 CLOSED @ [CONNECTING] = [CLOSED, CLOSED, CLOSED, CONNECTING]"
    by (simp add: numeral_3_eq_3)
  show ?thesis
    using reconnect_after_fixed_delay [of open_page 0 example_html Dashboard 0 3 "[]"]
          reconnect_after_fixed_delay [of "open_page\<lparr>timers := [5000], clock := 4999\<rparr>" 0 example_html Webapp 0 0 "[]"]
          reconnect_after_fixed_delay [of "open_page\<lparr>timers := [5000], clock := 5000\<rparr>" 0 example_html Webapp 0 0 "[]"]
    by (simp add: open_page_def socket_is_def r)
qed

text \<open>
  C6. In every state the page reaches from its markup by events the platform delivers
  (the load, then opens, messages, errors, closes, timers and the passing of time, in any
  order), at most one socket has not had its \<^verbatim>\<open>close\<close> event, so at most one
  is connecting or open. \<^verbatim>\<open>connectWebSocket\<close> runs only on the load and from
  the timer, and whenever it runs no socket is outstanding before and one is after.
\<close>

theorem one_connection_at_a_time:
  assumes "run html v es (fresh ns) = Some st"
  shows "live st \<le> 1
         \<and> (\<forall>k st'. deliver html v (Timeout k) st = Some st' \<longrightarrow> live st = 0 \<and> live st' = 1)
         \<and> (\<forall>st'. deliver html v DOMContentLoaded st = Some st' \<longrightarrow> live st = 0 \<and> live st' = 1)"
proof -
  have inv: "one_attempt st"
    using one_attempt_fresh assms by (rule run_one_attempt)
  have 1: "live st \<le> 1"
    using inv by (auto simp: one_attempt_def live_def split: if_splits)
  have 2: "live st = 0 \<and> live st' = 1" if "deliver html v (Timeout k) st = Some st'" for k st'
  proof -
    from that have k: "k < length (timers st)"
      and st': "st' = connectWebSocket v (st\<lparr>timers := take k (timers st) @ drop (Suc k) (timers st)\<rparr>)"
      by (auto split: if_splits)
    from inv k have "live st = 0"
      by (auto simp: one_attempt_def split: if_splits)
    with st' show ?thesis
      by simp
  qed
  have 3: "live st = 0 \<and> live st' = 1" if "deliver html v DOMContentLoaded st = Some st'" for st'
  proof -
    from that have "\<not> loaded st" and st': "st' = connectWebSocket v (st\<lparr>loaded := True\<rparr>)"
      by (auto split: if_splits)
    with inv have "live st = 0"
      by (simp add: one_attempt_def live_def)
    with st' show ?thesis
      by simp
  qed
  from 1 2 3 show ?thesis
    by blast
qed

theorem one_connection_at_a_time_witness:
  "\<exists>st. run example_html Dashboard [DOMContentLoaded, Opened 0, Closed 0, Elapse 5000, Timeout 0] (fresh []) = Some st
        \<and> sockets st = [CLOSED, CONNECTING] \<and> live st \<le> 1"
proof -
  obtain st where st: "run example_html Dashboard (DOMContentLoaded # cycles 1) (fresh []) = Some st"
    "sockets st = replicate 1 CLOSED @ [CONNECTING]"
    using cycles_run [of example_html Dashboard 1 "[]"] by blast
  from st(1) have "run example_html Dashboard [DOMContentLoaded, Opened 0, Closed 0, Elapse 5000, Timeout 0] (fresh []) = Some st"
    by (simp add: cycles_def cycle_def)
  with one_connection_at_a_time [OF this] st(2) show ?thesis
    by simp
qed

lemma add_error_record:
  "add_notification html v (error_record v now) True ns =
     Inr (remove_excess (maxNotifications v)
            (item v (error_record v now, True) # clear_placeholder html ns))"
proof -
  have "fst (error_record v now, True) \<noteq> JNull"
    "\<not> truthy_throws (field (fst (error_record v now, True)) ''detection_timestamp'')"
    "\<not> truthy_throws (field (fst (error_record v now, True)) ''video_filename'')"
    by (simp_all add: error_record_def field_def str_def)
  from add_notification_keep [OF this, of html v ns] show ?thesis
    by (simp add: remove_excess_keep)
qed

text \<open>
  C4, as the scripts have it. The two events have different handlers and neither looks at
  the cause. The handler of \<^verbatim>\<open>error\<close> puts one record marked as an error, with
  the text \<^verbatim>\<open>WebSocket Error\<close> (\<^verbatim>\<open>WebSocket Conn Error to ...\<close> in the web
  app), at the head of the notification area; it sets no status text and starts no
  timer. The handler of \<^verbatim>\<open>close\<close> replaces all the notification area holds with
  the status text and starts the timer; it adds no record. When a loss raises both, the
  record of the first is gone after the second.
\<close>

theorem loss_effects_by_event:
  assumes "socket_is st i OPEN"
  shows "(\<exists>st'. deliver html v (Errored i now) st = Some st'
            \<and> notificationsDiv st' =
                remove_excess (maxNotifications v)
                  (item v (error_record v now, True) # clear_placeholder html (notificationsDiv st))
            \<and> hd (notificationsDiv st') = item v (error_record v now, True)
            \<and> timers st' = timers st)
         \<and> (\<exists>c h. item v (error_record v now, True) = Div c error_style h)
         \<and> field (error_record v now) ''video_filename'' = Some (JString (str (error_filename v)))
         \<and> (\<exists>st'. deliver html v (Closed i) st = Some st'
               \<and> notificationsDiv st' = [P (disconnected_text v)]
               \<and> timers st' = timers st @ [clock st + 5000])
         \<and> (\<exists>st'. run html v [Errored i now, Closed i] st = Some st'
               \<and> notificationsDiv st' = [P (disconnected_text v)]
               \<and> timers st' = timers st @ [clock st + 5000])"
proof -
  let ?st1 = "ws_onerror html v now (set_socket i FAILED st)"
  have 1: "deliver html v (Errored i now) st = Some ?st1"
    using assms by simp
  have n1: "notificationsDiv ?st1 =
              remove_excess (maxNotifications v)
                (item v (error_record v now, True) # clear_placeholder html (notificationsDiv st))"
    by (simp add: ws_onerror_def add_error_record)
  have failed: "socket_is ?st1 i FAILED"
    using assms by (simp add: socket_is_def)
  let ?st2 = "ws_onclose v (set_socket i CLOSED ?st1)"
  have 2: "deliver html v (Closed i) ?st1 = Some ?st2"
    using failed by simp
  have "run html v [Errored i now, Closed i] st = Some ?st2"
    using 1 2 by simp
  moreover have "notificationsDiv ?st2 = [P (disconnected_text v)]"
    and "timers ?st2 = timers st @ [clock st + 5000]"
    by simp_all
  moreover have "deliver html v (Closed i) st = Some (ws_onclose v (set_socket i CLOSED st))"
    using assms by simp
  moreover have "\<exists>c h. item v (error_record v now, True) = Div c error_style h"
    by (cases v) (simp_all add: notification_item_def user_notification_item_def)
  moreover have "field (error_record v now) ''video_filename'' = Some (JString (str (error_filename v)))"
    by (simp add: field_def error_record_def str_def)
  ultimately show ?thesis
    using 1 n1 by (simp add: hd_remove_excess_item)
qed

theorem loss_effects_by_event_witness:
  "map_option notificationsDiv (deliver example_html Dashboard (Errored 0 (str ''2024-01-01T00:00:00.000Z'')) open_page)
     = Some [Div [''notification-item''] error_style
               [Lit ''\<newline>        <strong>Crash Alert!</strong><br>\<newline>        Video: '',
                ToString (Some (JString (str ''WebSocket Error''))),
                Lit ''<br>\<newline>        Time: '',
                LocaleString (Some (JString (str ''2024-01-01T00:00:00.000Z''))),
                Lit ''\<newline>    '']]
   \<and> map_option notificationsDiv
        (run example_html Dashboard [Errored 0 (str ''2024-01-01T00:00:00.000Z''), Closed 0] open_page)
     = Some [P ''WebSocket disconnected. Attempting to reconnect in 5 seconds...'']"
proof -
  have o: "socket_is open_page 0 OPEN"
    by (simp add: open_page_def socket_is_def)
  have r: "remove_excess 20 [n] = [n]" for n
    by (subst remove_excess.simps) (simp add: children_def)
  have c: "clear_placeholder example_html (notificationsDiv open_page) = []"
    by (simp add: open_page_def clear_placeholder_def)
  let ?now = "str ''2024-01-01T00:00:00.000Z''"
  from loss_effects_by_event [OF o, of example_html Dashboard ?now]
  obtain st1 st3 where
    1: "deliver example_html Dashboard (Errored 0 ?now) open_page = Some st1"
       "notificationsDiv st1 =
          remove_excess (maxNotifications Dashboard)
            (item Dashboard (error_record Dashboard ?now, True)
             # clear_placeholder example_html (notificationsDiv open_page))"
    and 3: "run example_html Dashboard [Errored 0 ?now, Closed 0] open_page = Some st3"
       "notificationsDiv st3 = [P (disconnected_text Dashboard)]"
    by blast
  have "notificationsDiv st1 = [item Dashboard (error_record Dashboard ?now, True)]"
    using 1(2) by (simp add: c r)
  then have "map_option notificationsDiv (deliver example_html Dashboard (Errored 0 ?now) open_page)
             = Some [item Dashboard (error_record Dashboard ?now, True)]"
    by (simp only: 1(1) option.map)
  moreover have "map_option notificationsDiv (run example_html Dashboard [Errored 0 ?now, Closed 0] open_page)
             = Some [P (disconnected_text Dashboard)]"
    by (simp only: 3 option.map)
  ultimately show ?thesis
    by (simp add: notification_item_def field_def error_record_def str_def)
qed

text \<open>
  C4 as the specification words it fails: on the dashboard with its socket open, a
  \<^verbatim>\<open>close\<close> leaves the status text and no record, and an \<^verbatim>\<open>error\<close> leaves
  the record and no status text.
\<close>

theorem loss_effects_counterexample:
  "map_option notificationsDiv (deliver example_html Dashboard (Closed 0) open_page)
     = Some [P ''WebSocket disconnected. Attempting to reconnect in 5 seconds...'']
   \<and> map_option (querySelector_p example_html \<circ> notificationsDiv)
        (deliver example_html Dashboard (Errored 0 (str ''2024-01-01T00:00:00.000Z'')) open_page)
     = Some None
   \<and> map_option timers (deliver example_html Dashboard (Errored 0 (str ''2024-01-01T00:00:00.000Z'')) open_page)
     = Some []"
proof -
  have r: "remove_excess 20 [n] = [n]" for n
    by (subst remove_excess.simps) (simp add: children_def)
  show ?thesis
    by (simp add: open_page_def socket_is_def set_socket_def ws_onclose_def ws_onerror_def
          console_write_def addNotification_def error_record_def clear_placeholder_def
          notification_item_def example_html_def r str_def)
qed

section \<open>The crash history\<close>

lemma get_Inl: "get v name = Inl e \<Longrightarrow> e = Thrown TypeError"
  by (cases v) auto

lemma JSON_parse_Inl: "JSON_parse raw = Inl e \<Longrightarrow> e = Thrown SyntaxError"
  by (auto simp: JSON_parse_def split: option.splits if_splits prod.splits)

lemma history_row_thrown: "history_row crash = (r, Some e) \<Longrightarrow> e = Thrown TypeError"
  by (auto simp: history_row_def split: sum.splits dest: get_Inl)

lemma insert_rows_thrown: "insert_rows crashes tbody = (tbody', Some e) \<Longrightarrow> e = Thrown TypeError"
  by (induction crashes arbitrary: tbody)
     (auto split: prod.splits option.splits dest: history_row_thrown)

lemma try_not_ok:
  "\<not> ok r \<Longrightarrow> fetchCrashHistory_try (Inr r) st = (st, Some (Error (http_error r)))"
  by (simp add: fetchCrashHistory_try_def)

lemma try_ok_thrown:
  assumes "ok r" and "snd (fetchCrashHistory_try (Inr r) st) = Some e"
  shows "e = Thrown TypeError \<or> e = Thrown SyntaxError"
  using assms
  by (auto simp: fetchCrashHistory_try_def response_json_def Let_def
           split: sum.splits if_splits json.splits prod.splits
           dest: get_Inl JSON_parse_Inl insert_rows_thrown)

lemma try_empty:
  "ok r \<Longrightarrow> response_json r = Inr (JArray []) \<Longrightarrow>
   fetchCrashHistory_try (Inr r) st = (st\<lparr>historyStatus := [Lit ''No crash history found.'']\<rparr>, None)"
  by (simp add: fetchCrashHistory_try_def is_zero_def)

lemma try_unparsed:
  "ok r \<Longrightarrow> response_json r = Inl e \<Longrightarrow> fetchCrashHistory_try (Inr r) st = (st, Some e)"
  by (simp add: fetchCrashHistory_try_def)

lemma begin_fields [simp]:
  "historyTbody (fetchCrashHistory_begin st) = []"
  "loadHistoryBtn_disabled (fetchCrashHistory_begin st)"
  "historyStatus (fetchCrashHistory_begin st) = [Lit ''Loading history...'']"
  "requests (fetchCrashHistory_begin st) =
     requests st @ [[Lit (API_BASE_URL Dashboard @ ''/api/crashes/history'')]]"
  by (simp_all add: fetchCrashHistory_begin_def console_write_def)

lemma resume_enabled [simp]: "\<not> loadHistoryBtn_disabled (fetchCrashHistory_resume fetched st)"
  by (simp add: fetchCrashHistory_resume_def Let_def split: prod.splits option.splits)

lemma decimal_500: "decimal 500 = ''500''"
  by simp

text \<open>
  C7, as the script has it. A response whose status is not a success makes the fetch
  throw an \<^verbatim>\<open>Error\<close> whose message ends with the status in decimal, and the
  status line shows it; for the status 500 the message contains \<^verbatim>\<open>500\<close>. That is
  the only \<^verbatim>\<open>Error\<close> with a message of the script's own, and it is thrown for no
  successful response: whatever the fetch throws on a successful response is the engine's
  \<^verbatim>\<open>SyntaxError\<close> or \<^verbatim>\<open>TypeError\<close>. A successful response does end
  in the \<^verbatim>\<open>catch\<close> when its body is not JSON: the fetch throws the
  \<^verbatim>\<open>SyntaxError\<close> of the parser and the status line shows it. A successful
  response with an empty array throws nothing and the status line says
  \<^verbatim>\<open>No crash history found.\<close>
\<close>

theorem history_error_carries_status:
  "(\<not> ok r \<longrightarrow>
      snd (fetchCrashHistory_try (Inr r) st) = Some (Error (http_error r))
      \<and> historyStatus (fetchCrashHistory (Inr r) st)
          = [Lit ''Error loading history: '', Lit (''HTTP error! status: '' @ decimal (status r))])
   \<and> (status r = 500 \<longrightarrow> text_includes (''HTTP error! status: '' @ decimal (status r)) ''500'')
   \<and> (ok r \<longrightarrow> snd (fetchCrashHistory_try (Inr r) st)
                 \<in> {None, Some (Thrown SyntaxError), Some (Thrown TypeError)})
   \<and> (ok r \<and> response_json r = Inl e \<longrightarrow>
        e = Thrown SyntaxError
        \<and> snd (fetchCrashHistory_try (Inr r) st) = Some (Thrown SyntaxError)
        \<and> historyStatus (fetchCrashHistory (Inr r) st)
            = [Lit ''Error loading history: '', EngineMessage SyntaxError])
   \<and> (ok r \<and> response_json r = Inr (JArray []) \<longrightarrow>
        snd (fetchCrashHistory_try (Inr r) st) = None
        \<and> historyStatus (fetchCrashHistory (Inr r) st) = [Lit ''No crash history found.'']
        \<and> historyTbody (fetchCrashHistory (Inr r) st) = [])"
proof (intro conjI impI)
  assume "\<not> ok r"
  then show "snd (fetchCrashHistory_try (Inr r) st) = Some (Error (http_error r))"
    by (simp add: try_not_ok)
  show "historyStatus (fetchCrashHistory (Inr r) st)
          = [Lit ''Error loading history: '', Lit (''HTTP error! status: '' @ decimal (status r))]"
    using \<open>\<not> ok r\<close>
    by (simp add: fetchCrashHistory_def fetchCrashHistory_resume_def try_not_ok http_error_def)
next
  assume "status r = 500"
  then show "text_includes (''HTTP error! status: '' @ decimal (status r)) ''500''"
    by (simp only: decimal_500) simp
next
  assume "ok r"
  then show "snd (fetchCrashHistory_try (Inr r) st)
               \<in> {None, Some (Thrown SyntaxError), Some (Thrown TypeError)}"
    using try_ok_thrown [of r st] by (cases "snd (fetchCrashHistory_try (Inr r) st)") auto
next
  assume a: "ok r \<and> response_json r = Inl e"
  then show e: "e = Thrown SyntaxError"
    by (auto simp: response_json_def dest: JSON_parse_Inl)
  show "snd (fetchCrashHistory_try (Inr r) st) = Some (Thrown SyntaxError)"
    using a e by (simp add: try_unparsed)
  show "historyStatus (fetchCrashHistory (Inr r) st)
          = [Lit ''Error loading history: '', EngineMessage SyntaxError]"
    using a e by (simp add: fetchCrashHistory_def fetchCrashHistory_resume_def try_unparsed)
next
  assume a: "ok r \<and> response_json r = Inr (JArray [])"
  then show "snd (fetchCrashHistory_try (Inr r) st) = None"
    by (simp add: try_empty)
  show "historyStatus (fetchCrashHistory (Inr r) st) = [Lit ''No crash history found.'']"
    using a by (simp add: fetchCrashHistory_def fetchCrashHistory_resume_def try_empty)
  show "historyTbody (fetchCrashHistory (Inr r) st) = []"
    using a by (simp add: fetchCrashHistory_def fetchCrashHistory_resume_def try_empty)
qed

theorem history_error_carries_status_witness:
  "historyStatus (fetchCrashHistory (Inr (Response 500 [])) shown_dashboard)
     = [Lit ''Error loading history: '', Lit ''HTTP error! status: 500'']
   \<and> text_includes ''HTTP error! status: 500'' ''500''
   \<and> historyStatus (fetchCrashHistory (Inr (Response 200 (str ''[]''))) shown_dashboard)
     = [Lit ''No crash history found.'']
   \<and> historyStatus (fetchCrashHistory (Inr (Response 200 (str ''<html>''))) shown_dashboard)
     = [Lit ''Error loading history: '', EngineMessage SyntaxError]"
proof -
  have e: "response_json (Response 200 (str ''[]'')) = Inr (JArray [])"
    unfolding response_json_def response.sel by code_simp
  have h: "response_json (Response 200 (str ''<html>'')) = Inl (Thrown SyntaxError)"
    unfolding response_json_def response.sel by code_simp
  show ?thesis
    using history_error_carries_status [of "Response 500 []" shown_dashboard]
          history_error_carries_status [of "Response 200 (str ''[]'')" shown_dashboard]
          history_error_carries_status [of "Response 200 (str ''<html>'')" shown_dashboard "Thrown SyntaxError"]
    by (simp add: ok_def e h)
qed

text \<open>
  C7 as the specification words it fails in one direction: a response with the status
  200 whose body is not JSON is a success by its status, and the fetch throws all the
  same.
\<close>

theorem history_error_counterexample:
  "ok (Response 200 (str ''<html>''))
   \<and> snd (fetchCrashHistory_try (Inr (Response 200 (str ''<html>''))) shown_dashboard)
       = Some (Thrown SyntaxError)
   \<and> historyStatus (fetchCrashHistory (Inr (Response 200 (str ''<html>''))) shown_dashboard)
       = [Lit ''Error loading history: '', EngineMessage SyntaxError]"
proof -
  have h: "response_json (Response 200 (str ''<html>'')) = Inl (Thrown SyntaxError)"
    unfolding response_json_def response.sel by code_simp
  have o: "ok (Response 200 (str ''<html>''))"
    by (simp add: ok_def)
  show ?thesis
    by (simp add: o fetchCrashHistory_def fetchCrashHistory_resume_def try_unparsed [OF o h])
qed

text \<open>
  Successful responses whose body is JSON and not an array of records: a body with a
  \<^verbatim>\<open>length\<close> of zero is taken for an empty history, an array of values that are
  not records gives rows of empty cells, and \<^verbatim>\<open>null\<close>, an object with no
  \<^verbatim>\<open>length\<close> of zero and an array that holds \<^verbatim>\<open>null\<close> make the
  fetch throw a \<^verbatim>\<open>TypeError\<close>.
\<close>

lemma parse_success_bodies:
  \<open>JSON_parse (str ''{"length":0}'') = Inr (JObject [(str ''length'', JNumber 0)])\<close>
  \<open>JSON_parse (str ''""'') = Inr (JString [])\<close>
  \<open>JSON_parse (str ''[5]'') = Inr (JArray [JNumber 5])\<close>
  \<open>JSON_parse (str ''null'') = Inr JNull\<close>
  \<open>JSON_parse (str ''{}'') = Inr (JObject [])\<close>
  \<open>JSON_parse (str ''[null]'') = Inr (JArray [JNull])\<close>
  by code_simp+

lemma success_bodies:
  \<open>snd (fetchCrashHistory_try (Inr (Response 200 (str ''{"length":0}''))) st) = None\<close>
  \<open>snd (fetchCrashHistory_try (Inr (Response 200 (str ''""''))) st) = None\<close>
  \<open>snd (fetchCrashHistory_try (Inr (Response 200 (str ''[5]''))) st) = None\<close>
  \<open>snd (fetchCrashHistory_try (Inr (Response 200 (str ''null''))) st) = Some (Thrown TypeError)\<close>
  \<open>snd (fetchCrashHistory_try (Inr (Response 200 (str ''{}''))) st) = Some (Thrown TypeError)\<close>
  \<open>snd (fetchCrashHistory_try (Inr (Response 200 (str ''[null]''))) st) = Some (Thrown TypeError)\<close>
  by (simp_all add: fetchCrashHistory_try_def ok_def response_json_def parse_success_bodies
        is_zero_def history_row_def)

text \<open>
  C10. \<^verbatim>\<open>fetchCrashHistory\<close> empties the table in the step that issues the request.
  When the request fails, by a rejected \<^verbatim>\<open>fetch\<close>, a status that is not a success
  or a body that is not JSON, the table is empty afterwards and the status line shows the
  error; and on every outcome the page afterwards is the one an empty table would have
  led to, so no row of an earlier fetch is kept.
\<close>

theorem history_cleared_before_request:
  "historyTbody (fetchCrashHistory_begin st) = []
   \<and> requests (fetchCrashHistory_begin st)
       = requests st @ [[Lit (API_BASE_URL Dashboard @ ''/api/crashes/history'')]]
   \<and> ((\<exists>e. fetched = Inl e)
        \<or> (\<exists>r. fetched = Inr r \<and> (\<not> ok r \<or> (\<exists>e. response_json r = Inl e)))
       \<longrightarrow> historyTbody (fetchCrashHistory fetched st) = []
           \<and> (\<exists>m. historyStatus (fetchCrashHistory fetched st) = Lit ''Error loading history: '' # m))
   \<and> fetchCrashHistory fetched st = fetchCrashHistory fetched (st\<lparr>historyTbody := []\<rparr>)"
proof (intro conjI impI)
  assume "(\<exists>e. fetched = Inl e)
          \<or> (\<exists>r. fetched = Inr r \<and> (\<not> ok r \<or> (\<exists>e. response_json r = Inl e)))"
  then consider e where "fetched = Inl e"
    | r where "fetched = Inr r" and "\<not> ok r"
    | r e where "fetched = Inr r" and "ok r" and "response_json r = Inl e"
    by blast
  then obtain e where t: "fetchCrashHistory_try fetched (fetchCrashHistory_begin st)
                          = (fetchCrashHistory_begin st, Some e)"
  proof cases
    case 1
    then show ?thesis
      using that by (simp add: fetchCrashHistory_try_def)
  next
    case 2
    then show ?thesis
      using that by (simp add: try_not_ok)
  next
    case 3
    then show ?thesis
      using that by (simp add: try_unparsed)
  qed
  then show "historyTbody (fetchCrashHistory fetched st) = []"
    by (simp add: fetchCrashHistory_def fetchCrashHistory_resume_def console_write_def)
  from t show "\<exists>m. historyStatus (fetchCrashHistory fetched st) = Lit ''Error loading history: '' # m"
    by (simp add: fetchCrashHistory_def fetchCrashHistory_resume_def)
next
  have "fetchCrashHistory_begin (st\<lparr>historyTbody := []\<rparr>) = fetchCrashHistory_begin st"
    by (simp add: fetchCrashHistory_begin_def console_write_def)
  then show "fetchCrashHistory fetched st = fetchCrashHistory fetched (st\<lparr>historyTbody := []\<rparr>)"
    by (simp add: fetchCrashHistory_def)
qed simp_all

theorem history_cleared_before_request_witness:
  "historyTbody shown_dashboard \<noteq> []
   \<and> historyTbody (fetchCrashHistory_begin shown_dashboard) = []
   \<and> historyTbody (fetchCrashHistory (Inr (Response 500 [])) shown_dashboard) = []"
proof -
  note h = history_cleared_before_request [of shown_dashboard "Inr (Response 500 [])"]
  show ?thesis
    using h [THEN conjunct1] h [THEN conjunct2, THEN conjunct2, THEN conjunct1]
    by (simp add: ok_def) (simp add: shown_dashboard_def)
qed

section \<open>The weather advisory\<close>

lemma weather_begin_fields [simp]:
  "refreshWeatherBtn_disabled (fetchWeatherAndSpeed_begin lat lon st)"
  "requests (fetchWeatherAndSpeed_begin lat lon st) =
     requests st @ [weather_url (default_null lat) (default_null lon)]"
  by (simp_all add: fetchWeatherAndSpeed_begin_def console_write_def Let_def)

lemma weather_begin_default [simp]:
  "locationStatusP (fetchWeatherAndSpeed_begin None None st)
     = [Lit ''Using default location for weather.'']"
  by (simp add: fetchWeatherAndSpeed_begin_def console_write_def Let_def)

lemma weather_try_requests:
  "requests (fst (fetchWeatherAndSpeed_try fetched st)) = requests st"
  by (simp add: fetchWeatherAndSpeed_try_def Let_def split: sum.splits)

lemma weather_resume_fields [simp]:
  "\<not> refreshWeatherBtn_disabled (fetchWeatherAndSpeed_resume fetched st)"
  "requests (fetchWeatherAndSpeed_resume fetched st) = requests st"
  using weather_try_requests [of fetched st]
  by (auto simp: fetchWeatherAndSpeed_resume_def Let_def console_write_def
           split: prod.splits option.splits)


lemma requestLocation_begin_fields [simp]:
  "refreshWeatherBtn_disabled (requestLocation_begin st)"
  "requests (requestLocation_begin st) = requests st"
  by (simp_all add: requestLocation_begin_def console_write_def)











section \<open>The parser consumes its input\<close>

lemma skip_ws_length: "length (skip_ws cs) \<le> length cs"
  by (simp add: skip_ws_def length_dropWhile_le)

lemma skip_ws_Cons_length: "skip_ws cs = d # r \<Longrightarrow> length r < length cs"
  using skip_ws_length [of cs] by simp

lemma cons_unit_Some:
  "cons_unit c r = Some (s, rest) \<Longrightarrow> \<exists>s'. r = Some (s', rest)"
  by (cases r) (auto simp: cons_unit_def)

lemma string_chars_consumes:
  "string_chars cs = Some (s, rest) \<Longrightarrow> length rest < length cs"
proof (induction cs arbitrary: s rest rule: length_induct)
  case (1 cs)
  have IH: "string_chars ys = Some (s, rest) \<Longrightarrow> length ys < length cs \<Longrightarrow> length rest < length ys"
    for ys s rest
    using "1.IH" by blast
  show ?case
  proof (cases cs)
    case Nil
    with "1.prems" show ?thesis by simp
  next
    case (Cons c cs0)
    with "1.prems" show ?thesis
      by (auto split: if_splits list.splits option.splits dest!: cons_unit_Some dest!: IH)
  qed
qed

lemma parse_fraction_length: "parse_fraction cs = Some (fp, rest) \<Longrightarrow> length rest \<le> length cs"
  using length_dropWhile_le [of is_digit "tl cs"]
  by (auto simp: parse_fraction_def Let_def split: list.splits if_splits)

lemma parse_exponent_length: "parse_exponent cs = Some (e, rest) \<Longrightarrow> length rest \<le> length cs"
proof (cases cs)
  case Nil
  then show "parse_exponent cs = Some (e, rest) \<Longrightarrow> length rest \<le> length cs"
    by (simp add: parse_exponent_def)
next
  case (Cons c cs1)
  assume p: "parse_exponent cs = Some (e, rest)"
  show "length rest \<le> length cs"
  proof (cases "c = 101 \<or> c = 69")
    case False
    with p Cons show ?thesis
      by (auto simp: parse_exponent_def)
  next
    case True
    with p Cons obtain cs2 where "rest = dropWhile is_digit cs2" and "length cs2 \<le> length cs1"
      by (auto simp: parse_exponent_def Let_def split: list.splits if_splits prod.splits)
    with length_dropWhile_le [of is_digit cs2] Cons show ?thesis
      by simp
  qed
qed

lemma parse_number_consumes:
  assumes "parse_number cs = Some (v, rest)"
  shows "length rest < length cs"
proof -
  define cs1 where "cs1 = (case cs of [] \<Rightarrow> cs | c # r \<Rightarrow> if c = 45 then r else cs)"
  have cs1: "length cs1 \<le> length cs"
    by (auto simp: cs1_def split: list.splits)
  have "\<exists>neg. (case cs of [] \<Rightarrow> (False, cs)
                    | c # r \<Rightarrow> if c = 45 then (True, r) else (False, cs)) = (neg, cs1)"
    by (auto simp: cs1_def split: list.splits)
  then obtain neg where
    "(case cs of [] \<Rightarrow> (False, cs) | c # r \<Rightarrow> if c = 45 then (True, r) else (False, cs))
     = (neg, cs1)"
    by blast
  with assms have ip: "takeWhile is_digit cs1 \<noteq> []"
    and "\<exists>fp cs2 e. parse_fraction (dropWhile is_digit cs1) = Some (fp, cs2)
           \<and> parse_exponent cs2 = Some (e, rest)"
    by (auto simp: parse_number_def Let_def split: if_splits option.splits)
  then obtain fp cs2 e where f: "parse_fraction (dropWhile is_digit cs1) = Some (fp, cs2)"
    and x: "parse_exponent cs2 = Some (e, rest)"
    by blast
  have "length (takeWhile is_digit cs1) + length (dropWhile is_digit cs1) = length cs1"
    by (metis length_append takeWhile_dropWhile_id)
  with ip have "length (dropWhile is_digit cs1) < length cs1"
    by (cases "takeWhile is_digit cs1") auto
  with parse_fraction_length [OF f] parse_exponent_length [OF x] cs1 show ?thesis
    by simp
qed

lemma parse_elements_consumes:
  "parse_elements cs = Some (vs, rest) \<Longrightarrow> length rest < length cs"
proof (induction cs arbitrary: vs rest rule: length_induct)
  case (1 cs)
  have IH: "parse_elements ys = Some (ws, r) \<Longrightarrow> length ys < length cs \<Longrightarrow> length r < length ys"
    for ys ws r
    using "1.IH" by blast
  from "1.prems" obtain v cs1 where v: "parse_value cs = Some (v, cs1)"
    and l: "length cs1 < length cs"
    by (subst (asm) parse_elements.simps) (auto split: option.splits if_splits)
  with "1.prems" have e:
    "(case skip_ws cs1 of
        [] \<Rightarrow> None
      | d # cs2 \<Rightarrow>
          if d = 93 then Some ([v], cs2)
          else if d = 44 then
            map_option (\<lambda>(vs, rest). (v # vs, rest)) (parse_elements (skip_ws cs2))
          else None) = Some (vs, rest)"
    by (subst (asm) parse_elements.simps) simp
  then obtain d cs2 where ws: "skip_ws cs1 = d # cs2"
    by (cases "skip_ws cs1") auto
  from skip_ws_Cons_length [OF ws] l have l2: "length cs2 < length cs"
    by simp
  show ?case
  proof (cases "d = 93")
    case True
    with e ws l2 show ?thesis by simp
  next
    case False
    with e ws obtain vs' where "parse_elements (skip_ws cs2) = Some (vs', rest)"
      by (auto split: if_splits)
    from IH [OF this] skip_ws_length [of cs2] l2 show ?thesis
      by simp
  qed
qed

lemma parse_members_consumes:
  "parse_members cs = Some (kvs, rest) \<Longrightarrow> length rest < length cs"
proof (induction cs arbitrary: kvs rest rule: length_induct)
  case (1 cs)
  have IH: "parse_members ys = Some (ws, r) \<Longrightarrow> length ys < length cs \<Longrightarrow> length r < length ys"
    for ys ws r
    using "1.IH" by blast
  from "1.prems" obtain k v cs4 where l: "length cs4 < length cs"
    and e: "(case skip_ws cs4 of
               [] \<Rightarrow> None
             | f # cs5 \<Rightarrow>
                 if f = 125 then Some ([(k, v)], cs5)
                 else if f = 44 then
                   map_option (\<lambda>(kvs, rest). ((k, v) # kvs, rest)) (parse_members (skip_ws cs5))
                 else None) = Some (kvs, rest)"
    by (subst (asm) parse_members.simps)
       (auto split: option.splits list.splits if_splits)
  then obtain f cs5 where ws: "skip_ws cs4 = f # cs5"
    by (cases "skip_ws cs4") auto
  from skip_ws_Cons_length [OF ws] l have l2: "length cs5 < length cs"
    by simp
  show ?case
  proof (cases "f = 125")
    case True
    with e ws l2 show ?thesis by simp
  next
    case False
    with e ws obtain kvs' where "parse_members (skip_ws cs5) = Some (kvs', rest)"
      by (auto split: if_splits)
    from IH [OF this] skip_ws_length [of cs5] l2 show ?thesis
      by simp
  qed
qed

lemma parse_value_consumes:
  assumes p: "parse_value cs = Some (v, rest)"
  shows "length rest < length cs"
proof (cases cs)
  case Nil
  with p show ?thesis
    by (simp add: parse_value.simps)
next
  case (Cons c cs1)
  consider (obj) "c = 123" | (arr) "c \<noteq> 123" "c = 91" | (string) "c \<noteq> 123" "c \<noteq> 91" "c = 34"
    | (other) "c \<noteq> 123" "c \<noteq> 91" "c \<noteq> 34"
    by blast
  then show ?thesis
  proof cases
    case obj
    show ?thesis
    proof (cases "skip_ws cs1")
      case Nil
      with p Cons obj show ?thesis
        by (simp add: parse_value.simps)
    next
      case ws: (Cons d cs2)
      show ?thesis
      proof (cases "d = 125")
        case True
        with p Cons obj ws skip_ws_Cons_length [OF ws] show ?thesis
          by (simp add: parse_value.simps)
      next
        case False
        with p Cons obj ws obtain kvs where "parse_members (d # cs2) = Some (kvs, rest)"
          by (auto simp: parse_value.simps)
        from parse_members_consumes [OF this] skip_ws_length [of cs1] ws Cons show ?thesis
          by simp
      qed
    qed
  next
    case arr
    show ?thesis
    proof (cases "skip_ws cs1")
      case Nil
      with p Cons arr show ?thesis
        by (simp add: parse_value.simps)
    next
      case ws: (Cons d cs2)
      show ?thesis
      proof (cases "d = 93")
        case True
        with p Cons arr ws skip_ws_Cons_length [OF ws] show ?thesis
          by (simp add: parse_value.simps)
      next
        case False
        with p Cons arr ws obtain vs where "parse_elements (d # cs2) = Some (vs, rest)"
          by (auto simp: parse_value.simps)
        from parse_elements_consumes [OF this] skip_ws_length [of cs1] ws Cons show ?thesis
          by simp
      qed
    qed
  next
    case string
    with p Cons obtain s where "string_chars cs1 = Some (s, rest)"
      by (auto simp: parse_value.simps)
    from string_chars_consumes [OF this] Cons show ?thesis
      by simp
  next
    case other
    with p Cons have "rest = drop 4 cs \<or> rest = drop 5 cs \<or> parse_number cs = Some (v, rest)"
      by (auto simp: parse_value.simps split: if_splits)
    with Cons show ?thesis
      by (auto dest: parse_number_consumes)
  qed
qed

text \<open>
  So the comparisons of lengths in \<open>parse_elements\<close> and \<open>parse_members\<close> never fail:
  the two functions are the plain recursive descent.
\<close>

lemma parse_elements_descent:
  "parse_elements cs =
     (case parse_value cs of
        None \<Rightarrow> None
      | Some (v, cs1) \<Rightarrow>
          (case skip_ws cs1 of
             [] \<Rightarrow> None
           | d # cs2 \<Rightarrow>
               if d = 93 then Some ([v], cs2)
               else if d = 44 then
                 map_option (\<lambda>(vs, rest). (v # vs, rest)) (parse_elements (skip_ws cs2))
               else None))"
  by (subst parse_elements.simps) (auto split: option.splits dest: parse_value_consumes)

lemma parse_members_descent:
  "parse_members cs =
     (case cs of
        [] \<Rightarrow> None
      | c # cs1 \<Rightarrow>
          if c = 34 then
            (case string_chars cs1 of
               None \<Rightarrow> None
             | Some (k, cs2) \<Rightarrow>
                 (case skip_ws cs2 of
                    [] \<Rightarrow> None
                  | d # cs3 \<Rightarrow>
                      if d = 58 then
                        (case parse_value (skip_ws cs3) of
                           None \<Rightarrow> None
                         | Some (v, cs4) \<Rightarrow>
                             (case skip_ws cs4 of
                                [] \<Rightarrow> None
                              | f # cs5 \<Rightarrow>
                                  if f = 125 then Some ([(k, v)], cs5)
                                  else if f = 44 then
                                    map_option (\<lambda>(kvs, rest). ((k, v) # kvs, rest))
                                      (parse_members (skip_ws cs5))
                                  else None))
                      else None))
          else None)"
proof (cases cs)
  case Nil
  then show ?thesis
    by (subst parse_members.simps) simp
next
  case (Cons c cs1)
  have 1: "length cs2 < length cs" if "string_chars cs1 = Some (k, cs2)" for k cs2
    using string_chars_consumes [OF that] Cons by simp
  have 2: "length (skip_ws cs3) < length cs"
    if "string_chars cs1 = Some (k, cs2)" and "skip_ws cs2 = d # cs3" for k cs2 d cs3
    using 1 [OF that(1)] skip_ws_Cons_length [OF that(2)] skip_ws_length [of cs3] by simp
  have 3: "length cs4 < length cs"
    if "string_chars cs1 = Some (k, cs2)" and "skip_ws cs2 = d # cs3"
      and "parse_value (skip_ws cs3) = Some (v, cs4)" for k cs2 d cs3 v cs4
    using 2 [OF that(1,2)] parse_value_consumes [OF that(3)] by simp
  show ?thesis
    by (subst parse_members.simps)
       (auto simp: Cons split: option.splits list.splits dest: 1 2 3)
qed

end
